theory Spec2Isabelle
  imports Complex_Main "HOL-Library.AList" "HOL-Library.Multiset"
begin

section \<open>Persisted state: the tables read and written by amazon.js\<close>

text \<open>
  The server (\<^verbatim>\<open>expression-panda/amazon.js\<close>) keeps all of its state in a PostgreSQL
  database. Each table is a list of rows; a row is a record whose fields are the
  columns used by the statements of the source. An integer column holds a 32-bit
  integer (\<^verbatim>\<open>integer\<close>, \<^verbatim>\<open>int4\<close>): its value is an \<open>int\<close>, and the statements that
  compute or receive such a value fail when it leaves the range (\<open>int4\<close> below). A money
  column and a JavaScript number that carries money is the rational that its decimal
  text denotes, the text in which the number goes to the server and to the store; the
  model stores and copies such a number and does no arithmetic on it.
\<close>

record inventory_row =
  inventory_id :: int
  item_name :: string
  stock_level :: int
  purchase_price :: rat

record menu_row =
  menu_item_id :: int
  menu_item_name :: string
  sales_price :: rat

record menu_ingredients_row =
  mi_menu_item_id :: int
  mi_inventory_id :: int
  quantity_needed :: int

datatype order_status = building | waiting | complete

record orders_row =
  order_id :: int
  employee_id :: int
  order_time :: int
  order_total :: rat
  order_status :: order_status

record order_menu_row =
  om_order_id :: int
  om_menu_item_id :: int
  quantity_ordered :: int

text \<open>
  Modelled from the spec: the table declarations are not part of the source. The
  statement \<^verbatim>\<open>INSERT INTO orders (...) RETURNING order_id\<close> supplies no id, so the
  store assigns it; \<open>orders_order_id_seq\<close> is the last value handed out by that
  sequence, and \<open>order_id\<close> is the key of \<open>orders\<close> (an insert of an id that is
  already present is refused by the store). The integer columns are \<^verbatim>\<open>integer\<close>
  columns, and no table refers to another by a foreign key.
\<close>

record db =
  inventory :: "inventory_row list"
  menu :: "menu_row list"
  menu_ingredients :: "menu_ingredients_row list"
  orders :: "orders_row list"
  order_menu :: "order_menu_row list"
  orders_order_id_seq :: int

text \<open>The range of \<^verbatim>\<open>integer\<close>: from \<open>- 2^31\<close> to \<open>2^31 - 1\<close>.\<close>

definition int4 :: "int \<Rightarrow> bool" where
  "int4 x \<longleftrightarrow> - 2147483648 \<le> x \<and> x \<le> 2147483647"

text \<open>
  A query without \<^verbatim>\<open>ORDER BY\<close> returns its rows in an order that the store chooses,
  and \<^verbatim>\<open>ORDER BY\<close> leaves the order of the rows with equal keys to the store. That
  choice is a parameter of the model: a function that rearranges the rows. Nothing is
  known of it but that it returns the same rows, each as often as it was given
  (\<open>reorders\<close>).
\<close>

type_synonym 'a row_order = "'a list \<Rightarrow> 'a list"

definition reorders :: "'a row_order \<Rightarrow> bool" where
  "reorders p \<longleftrightarrow> (\<forall>xs. mset (p xs) = mset xs)"

section \<open>Requests and JavaScript values\<close>

text \<open>
  \<^verbatim>\<open>SelectedItem\<close> of CartContext.tsx: \<^verbatim>\<open>{id, name, price, quantity}\<close>. The ids that
  reach the server are the numbers the server itself sent in \<^verbatim>\<open>/api/active-items\<close>;
  the ids and the quantities are whole numbers of any size, and the names are texts
  that the store takes as \<^verbatim>\<open>text\<close> (without a NUL character).
\<close>

record SelectedItem =
  sel_id :: int
  sel_name :: string
  sel_price :: rat
  sel_quantity :: int

text \<open>The body of \<^verbatim>\<open>POST /api/placeOrder\<close>: \<^verbatim>\<open>{itemAmount, total, emID}\<close>.\<close>

record order_request =
  itemAmount :: "SelectedItem list"
  req_total :: rat
  emID :: int

text \<open>
  What is thrown: a \<^verbatim>\<open>TypeError\<close> of JavaScript, an \<^verbatim>\<open>Error\<close> with its message, or the
  error with which \<^verbatim>\<open>query\<close> rejects when the store refuses a statement.
\<close>

datatype js_error = TypeError | Error string | DatabaseError

text \<open>\<^verbatim>\<open>Number.prototype.toString\<close> on an integer: decimal digits, a minus sign first.\<close>

fun string_of_nat :: "nat \<Rightarrow> string" where
  "string_of_nat n =
     (if n < 10 then [''0123456789'' ! n]
      else string_of_nat (n div 10) @ [''0123456789'' ! (n mod 10)])"

declare string_of_nat.simps [simp del]

definition toString :: "int \<Rightarrow> string" where
  "toString i = (if i < 0 then ''-'' @ string_of_nat (nat (- i)) else string_of_nat (nat i))"

text \<open>\<^verbatim>\<open>Array.prototype.join\<close>.\<close>

fun join :: "string \<Rightarrow> string list \<Rightarrow> string" where
  "join sep [] = []"
| "join sep [x] = x"
| "join sep (x # y # ys) = x @ sep @ join sep (y # ys)"

section \<open>checkSufficientIngredients\<close>

text \<open>A row of the result of the query in \<^verbatim>\<open>checkSufficientIngredients\<close>.\<close>

record ingredient_row =
  row_menu_item_id :: int
  row_inventory_id :: int
  total_quantity_needed :: int
  row_item_name :: string
  row_stock_level :: int
  row_item_id :: int
  menu_name :: string
  quantity :: int

text \<open>
  \<^verbatim>\<open>
  WITH oi AS (SELECT item_id, menu_name, quantity
              FROM unnest($1::int[], $2::text[], $3::int[]) AS t(item_id, menu_name, quantity))
  SELECT mi.menu_item_id, mi.inventory_id,
         mi.quantity_needed * oi.quantity AS total_quantity_needed,
         i.item_name, i.stock_level, oi.item_id, oi.menu_name, oi.quantity
  FROM menu_ingredients mi
  JOIN inventory i ON mi.inventory_id = i.inventory_id
  JOIN oi ON mi.menu_item_id = oi.item_id
  \<close>
  where the three arrays are \<^verbatim>\<open>Number(item.id)\<close>, \<^verbatim>\<open>String(item.name)\<close> and
  \<^verbatim>\<open>Number(item.quantity)\<close> of the lines of \<^verbatim>\<open>itemOrdered\<close>.

  The product in the select list is a product of two \<^verbatim>\<open>integer\<close>s: the store computes
  it for a joined row and refuses the statement (\<^verbatim>\<open>integer out of range\<close>) when it does
  not fit.
\<close>

definition joined_row ::
  "menu_ingredients_row \<Rightarrow> inventory_row \<Rightarrow> SelectedItem \<Rightarrow> js_error + ingredient_row" where
  "joined_row mi i oi =
     (if int4 (quantity_needed mi * sel_quantity oi)
      then Inr \<lparr> row_menu_item_id = mi_menu_item_id mi,
                 row_inventory_id = mi_inventory_id mi,
                 total_quantity_needed = quantity_needed mi * sel_quantity oi,
                 row_item_name = item_name i,
                 row_stock_level = stock_level i,
                 row_item_id = sel_id oi,
                 menu_name = sel_name oi,
                 quantity = sel_quantity oi \<rparr>
      else Inl DatabaseError)"

text \<open>The two joins: every recipe entry with its inventory rows and its cart lines.\<close>

definition ingredient_join :: "db \<Rightarrow> SelectedItem list \<Rightarrow> (js_error + ingredient_row) list" where
  "ingredient_join d itemOrdered =
     concat (map (\<lambda>mi.
       concat (map (\<lambda>i.
         map (\<lambda>oi. joined_row mi i oi)
           (filter (\<lambda>oi. mi_menu_item_id mi = sel_id oi) itemOrdered))
         (filter (\<lambda>i. mi_inventory_id mi = inventory_id i) (inventory d))))
       (menu_ingredients d))"

text \<open>The rows, when every one of them was computed; the error of one that was not.\<close>

fun collect :: "('e + 'a) list \<Rightarrow> 'e + 'a list" where
  "collect [] = Inr []"
| "collect (Inl e # xs) = Inl e"
| "collect (Inr x # xs) = (case collect xs of Inl e \<Rightarrow> Inl e | Inr ys \<Rightarrow> Inr (x # ys))"

text \<open>
  \<^verbatim>\<open>await pool.query(query, [itemIds, itemNames, itemQuantities])\<close>. The casts
  \<^verbatim>\<open>$1::int[]\<close> and \<^verbatim>\<open>$3::int[]\<close> fail for an id or a quantity outside the range of
  \<^verbatim>\<open>integer\<close>, whether or not the line joins a recipe; then, and when a product
  overflows, the promise is rejected. The query has no \<^verbatim>\<open>ORDER BY\<close>: the rows come in
  the order \<open>p\<close> of the store.
\<close>

definition ingredient_query ::
  "ingredient_row row_order \<Rightarrow> db \<Rightarrow> SelectedItem list \<Rightarrow> js_error + ingredient_row list" where
  "ingredient_query p d itemOrdered =
     (if list_all (\<lambda>item. int4 (sel_id item) \<and> int4 (sel_quantity item)) itemOrdered
      then (case collect (ingredient_join d itemOrdered) of
              Inl e \<Rightarrow> Inl e
            | Inr rows \<Rightarrow> Inr (p rows))
      else Inl DatabaseError)"

text \<open>
  The values of the two JavaScript maps and of the returned object. The totals are sums
  of 32-bit integers, which JavaScript adds without rounding as long as the sums stay
  below \<open>2^53\<close> in absolute value; they are integers here.
\<close>

record usage =
  total :: int
  itemUsed :: "string list"

record Ingredients =
  ingredientName :: string
  amount :: int

record Item =
  entry_name :: string
  entry_amount :: int
  entry_ingredient :: "Ingredients list"

record low_stock =
  low_ingredientName :: string
  currStock :: int
  neededStock :: int
  menuItemsUsing :: "string list"

text \<open>\<^verbatim>\<open>{low: true, second: {...}}\<close> or \<^verbatim>\<open>{low: false, second: [...]}\<close>.\<close>

datatype check_result = Low low_stock | NotLow "Item list"

text \<open>
  \<open>allIngredientsUsed\<close> is only read with \<^verbatim>\<open>get\<close> and written with \<^verbatim>\<open>set\<close>: a partial
  function. \<open>itemToIngredientMap\<close> is read back with \<^verbatim>\<open>values()\<close>, in insertion order:
  an association list, where \<^verbatim>\<open>set\<close> on a key that is present replaces the value in
  place and a new key goes to the end (\<open>AList.update\<close>).
\<close>

type_synonym ingredients_used = "string \<rightharpoonup> usage"
type_synonym item_map = "(int \<times> Item) list"

text \<open>
  \<^verbatim>\<open>itemOrdered.forEach((selectedItem) => itemToIngredientMap.set(selectedItem.id,
     {name: selectedItem.name, amount: selectedItem.quantity, ingredient: []}))\<close>
\<close>

definition init_item_map :: "SelectedItem list \<Rightarrow> item_map" where
  "init_item_map itemOrdered =
     fold (\<lambda>selectedItem m.
             AList.update (sel_id selectedItem)
               \<lparr> entry_name = sel_name selectedItem,
                 entry_amount = sel_quantity selectedItem,
                 entry_ingredient = [] \<rparr> m)
       itemOrdered []"

text \<open>
  The body of \<^verbatim>\<open>res.rows.forEach((row) => ...)\<close>. \<^verbatim>\<open>itemToIngredientMap.get(menu_item_id)\<close>
  is \<^verbatim>\<open>undefined\<close> for a missing key, and reading \<^verbatim>\<open>.ingredient\<close> of it throws a
  TypeError.
\<close>

fun row_step ::
  "ingredient_row \<Rightarrow> ingredients_used \<times> item_map \<Rightarrow> js_error + ingredients_used \<times> item_map" where
  "row_step row (allIngredientsUsed, itemToIngredientMap) =
     (let temp = (case allIngredientsUsed (row_item_name row) of
                    Some u \<Rightarrow> u
                  | None \<Rightarrow> \<lparr> total = 0, itemUsed = [] \<rparr>);
          allIngredientsUsed' = fun_upd allIngredientsUsed (row_item_name row)
             (Some \<lparr> total = total temp + total_quantity_needed row,
                      itemUsed = itemUsed temp @ [menu_name row @ '' x'' @ toString (quantity row)] \<rparr>)
      in case map_of itemToIngredientMap (row_menu_item_id row) of
           None \<Rightarrow> Inl TypeError
         | Some it \<Rightarrow>
             Inr (allIngredientsUsed',
                  AList.update (row_menu_item_id row)
                    (it \<lparr> entry_ingredient := entry_ingredient it @
                            [\<lparr> ingredientName = row_item_name row,
                               amount = total_quantity_needed row \<rparr>] \<rparr>)
                    itemToIngredientMap))"

declare row_step.simps [simp del]

fun process_rows ::
  "ingredient_row list \<Rightarrow> ingredients_used \<times> item_map \<Rightarrow> js_error + ingredients_used \<times> item_map" where
  "process_rows [] st = Inr st"
| "process_rows (row # rows) st =
     (case row_step row st of
        Inl e \<Rightarrow> Inl e
      | Inr st' \<Rightarrow> process_rows rows st')"

text \<open>
  \<^verbatim>\<open>for (const row of res.rows) { if (stock_level < allIngredientsUsed.get(item_name).total)
     return {low: true, second: {...}} }\<close>: the first row that is short ends the loop.
\<close>

fun first_low :: "ingredient_row list \<Rightarrow> ingredients_used \<Rightarrow> js_error + low_stock option" where
  "first_low [] allIngredientsUsed = Inr None"
| "first_low (row # rows) allIngredientsUsed =
     (case allIngredientsUsed (row_item_name row) of
        None \<Rightarrow> Inl TypeError
      | Some u \<Rightarrow>
          if row_stock_level row < total u
          then Inr (Some \<lparr> low_ingredientName = row_item_name row,
                           currStock = row_stock_level row,
                           neededStock = total u,
                           menuItemsUsing = itemUsed u \<rparr>)
          else first_low rows allIngredientsUsed)"

text \<open>The JavaScript of \<^verbatim>\<open>checkSufficientIngredients\<close>, after the query has returned \<open>rows\<close>.\<close>

definition check_rows :: "SelectedItem list \<Rightarrow> ingredient_row list \<Rightarrow> js_error + check_result" where
  "check_rows itemOrdered rows =
     (case process_rows rows (Map.empty, init_item_map itemOrdered) of
        Inl e \<Rightarrow> Inl e
      | Inr (allIngredientsUsed, itemToIngredientMap) \<Rightarrow>
          (case first_low rows allIngredientsUsed of
             Inl e \<Rightarrow> Inl e
           | Inr (Some lo) \<Rightarrow> Inr (Low lo)
           | Inr None \<Rightarrow> Inr (NotLow (map snd itemToIngredientMap))))"

text \<open>
  \<^verbatim>\<open>checkSufficientIngredients(itemOrdered)\<close>: the query, whose rejection is thrown on,
  and the JavaScript on its rows.
\<close>

definition checkSufficientIngredients ::
  "ingredient_row row_order \<Rightarrow> db \<Rightarrow> SelectedItem list \<Rightarrow> js_error + check_result" where
  "checkSufficientIngredients p d itemOrdered =
     (case ingredient_query p d itemOrdered of
        Inl e \<Rightarrow> Inl e
      | Inr rows \<Rightarrow> check_rows itemOrdered rows)"

section \<open>POST /api/placeOrder\<close>

text \<open>
  The three answers of the handler: \<^verbatim>\<open>res.status(201).json({message})\<close>,
  \<^verbatim>\<open>res.status(400).json({error})\<close> with the low-stock text, and
  \<^verbatim>\<open>res.status(500).json({error})\<close> from the \<^verbatim>\<open>catch\<close> block.
\<close>

datatype response = Status_201 string | Status_400 string | Status_500

definition low_stock_alert :: "low_stock \<Rightarrow> string" where
  "low_stock_alert second =
     ''Low Stock Alert: The ingredient '' @ low_ingredientName second @
     '' is being ordered in '' @ join '', '' (menuItemsUsing second) @
     '', which uses total of '' @ toString (neededStock second) @
     '', and there is '' @ toString (currStock second) @ '' available.''"

text \<open>
  The handler is an \<^verbatim>\<open>async\<close> function: at each \<^verbatim>\<open>await\<close> it stops until the store has
  answered, and other handlers run in between. \<open>placing\<close> is the point a call has
  reached, with the values of its local variables that are still used:

    \<^item> \<open>Checking\<close>: before \<^verbatim>\<open>await checkSufficientIngredients(itemOrdered)\<close>;
    \<^item> \<open>Selecting\<close>: after \<^verbatim>\<open>BEGIN\<close>, before
      \<^verbatim>\<open>SELECT * FROM orders WHERE order_status = 'building'\<close>;
    \<^item> \<open>Inserting checkBuilding\<close>: before \<^verbatim>\<open>INSERT INTO orders ... RETURNING order_id\<close>,
      with the rows the select has returned;
    \<^item> \<open>Adding_lines orderID row rest lines\<close>: in the loop over \<^verbatim>\<open>itemOrdered\<close>, with the
      lines \<open>rest\<close> still to insert; \<open>row\<close> and \<open>lines\<close> are the rows inserted so far by
      the transaction, which no other transaction sees before \<^verbatim>\<open>COMMIT\<close>;
    \<^item> \<open>Answered\<close>: the answer has been sent.
\<close>

datatype placing =
    Checking
  | Selecting
  | Inserting "orders_row list"
  | Adding_lines int orders_row "SelectedItem list" "order_menu_row list"
  | Answered response

text \<open>
  One step of the handler, from one \<^verbatim>\<open>await\<close> to the next, on the state of the store at
  that moment; \<open>now\<close> is \<^verbatim>\<open>new Date()\<close>. An exception (from
  \<^verbatim>\<open>checkSufficientIngredients\<close>, or from the store refusing the insert: an employee id
  outside the range of \<^verbatim>\<open>integer\<close>, an order id that is present) is caught:
  \<^verbatim>\<open>ROLLBACK\<close> undoes the inserts of the transaction, and the answer is 500. A value
  taken from the sequence is not given back by a rollback. The last step is
  \<^verbatim>\<open>COMMIT\<close>, which writes the rows of the transaction to the tables.
\<close>

fun placeOrder_step ::
  "ingredient_row row_order \<Rightarrow> int \<Rightarrow> order_request \<Rightarrow> placing \<Rightarrow> db \<Rightarrow> placing \<times> db" where
  "placeOrder_step p now order' Checking d =
     (case checkSufficientIngredients p d (itemAmount order') of
        Inl e \<Rightarrow> (Answered Status_500, d)
      | Inr (Low second) \<Rightarrow> (Answered (Status_400 (low_stock_alert second)), d)
      | Inr (NotLow ingredients) \<Rightarrow> (Selecting, d))"
| "placeOrder_step p now order' Selecting d =
     (Inserting (filter (\<lambda>ord. order_status ord = building) (orders d)), d)"
| "placeOrder_step p now order' (Inserting checkBuilding) d =
     (if \<not> int4 (emID order') then (Answered Status_500, d)
      else
        let orderID = orders_order_id_seq d + 1
        in if orderID \<in> set (map order_id (orders d))
           then (Answered Status_500, d \<lparr> orders_order_id_seq := orderID \<rparr>)
           else (Adding_lines orderID
                   \<lparr> order_id = orderID,
                     employee_id = emID order',
                     order_time = now,
                     order_total = req_total order',
                     order_status = (if length checkBuilding > 0 then waiting else building) \<rparr>
                   (itemAmount order') [],
                 d \<lparr> orders_order_id_seq := orderID \<rparr>))"
| "placeOrder_step p now order' (Adding_lines orderID row (selectedItem # rest) lines) d =
     (Adding_lines orderID row rest
        (lines @ [\<lparr> om_order_id = orderID,
                     om_menu_item_id = sel_id selectedItem,
                     quantity_ordered = sel_quantity selectedItem \<rparr>]),
      d)"
| "placeOrder_step p now order' (Adding_lines orderID row [] lines) d =
     (Answered (Status_201 (''Order placed successfully, your number is: '' @ toString orderID)),
      d \<lparr> orders := orders d @ [row], order_menu := order_menu d @ lines \<rparr>)"
| "placeOrder_step p now order' (Answered r) d = (Answered r, d)"

text \<open>The number of steps a call has before it, at most.\<close>

fun steps_left :: "order_request \<Rightarrow> placing \<Rightarrow> nat" where
  "steps_left order' Checking = length (itemAmount order') + 4"
| "steps_left order' Selecting = length (itemAmount order') + 3"
| "steps_left order' (Inserting checkBuilding) = length (itemAmount order') + 2"
| "steps_left order' (Adding_lines orderID row rest lines) = length rest + 1"
| "steps_left order' (Answered r) = 0"

text \<open>
  A call that no other handler interrupts: its steps one after the other, up to the
  answer, each on the state the step before has left.
\<close>

function handle ::
  "ingredient_row row_order \<Rightarrow> int \<Rightarrow> order_request \<Rightarrow> placing \<Rightarrow> db \<Rightarrow> response \<times> db" where
  "handle p now order' st d =
     (case st of
        Answered r \<Rightarrow> (r, d)
      | _ \<Rightarrow> (case placeOrder_step p now order' st d of (st', d') \<Rightarrow> handle p now order' st' d'))"
  by pat_completeness auto

termination
  apply (relation "measure (\<lambda>(p, now, order', st, d). steps_left order' st)")
  apply (auto simp: Let_def split: sum.splits check_result.splits if_splits)
  subgoal for p now order' d orderID row rest lines st' d'
    by (cases rest) auto
  done

declare handle.simps [simp del]

definition placeOrder ::
  "ingredient_row row_order \<Rightarrow> db \<Rightarrow> int \<Rightarrow> order_request \<Rightarrow> response \<times> db" where
  "placeOrder p d now order' = handle p now order' Checking d"

section \<open>CartContext.tsx: placeOrder of the client\<close>

text \<open>
  \<^verbatim>\<open>placeOrder(userId)\<close> of the cart context: an empty cart throws before the request is
  sent; otherwise the cart, its total and the user go to \<^verbatim>\<open>POST /api/placeOrder\<close>, an
  answer that is not ok is thrown, and a success clears the cart. The result is the
  error thrown or the cart after the call, with the state of the store. \<open>total\<close> is the
  value of the variable \<^verbatim>\<open>total\<close> of the component, which it computes from the cart in
  floating point (\<^verbatim>\<open>subtotal + subtotal * 0.0825\<close>); the model takes the number as it
  is sent. The request is handled without another handler in between.
\<close>

definition CartContext_placeOrder ::
  "ingredient_row row_order \<Rightarrow> db \<Rightarrow> int \<Rightarrow> SelectedItem list \<Rightarrow> rat \<Rightarrow> int \<Rightarrow>
     (js_error + SelectedItem list) \<times> db" where
  "CartContext_placeOrder p d now selectedItems total' userId =
     (if length selectedItems = 0
      then (Inl (Error ''Your order is empty. Please add items first.''), d)
      else
        case placeOrder p d now
               \<lparr> itemAmount = selectedItems, req_total = total', emID = userId \<rparr> of
          (Status_201 message, d') \<Rightarrow> (Inr [], d')
        | (Status_400 err, d') \<Rightarrow> (Inl (Error err), d')
        | (Status_500, d') \<Rightarrow> (Inl (Error ''[object Object]''), d'))"

section \<open>PUT /api/kitchenNext\<close>

text \<open>
  \<^verbatim>\<open>
  WITH next_order AS (SELECT order_id FROM orders WHERE order_status = 'waiting'
                      ORDER BY order_id ASC LIMIT 1 FOR UPDATE SKIP LOCKED),
       building_order AS (SELECT order_id FROM orders WHERE order_status = 'building'
                      ORDER BY order_id ASC LIMIT 1 FOR UPDATE SKIP LOCKED)
  UPDATE orders SET order_status = CASE
      WHEN order_id = (SELECT order_id FROM building_order) THEN 'complete'
      WHEN order_id = (SELECT order_id FROM next_order) THEN 'building'
      ELSE order_status END
  WHERE order_id IN (SELECT order_id FROM building_order UNION SELECT order_id FROM next_order)
  \<close>
  One handler runs at a time: no row is locked by another transaction. A subquery with
  no row is \<^verbatim>\<open>NULL\<close>, which is equal to no id.
\<close>

definition first_id :: "order_status \<Rightarrow> db \<Rightarrow> int option" where
  "first_id st d =
     (case sort (map order_id (filter (\<lambda>ord. order_status ord = st) (orders d))) of
        [] \<Rightarrow> None
      | x # xs \<Rightarrow> Some x)"

definition next_order :: "db \<Rightarrow> int option" where
  "next_order d = first_id waiting d"

definition building_order :: "db \<Rightarrow> int option" where
  "building_order d = first_id building d"

definition update_status :: "db \<Rightarrow> orders_row \<Rightarrow> orders_row" where
  "update_status d ord =
     (if Some (order_id ord) = building_order d \<or> Some (order_id ord) = next_order d
      then ord \<lparr> order_status :=
                 (if Some (order_id ord) = building_order d then complete
                  else if Some (order_id ord) = next_order d then building
                  else order_status ord) \<rparr>
      else ord)"

definition kitchenNext :: "db \<Rightarrow> db" where
  "kitchenNext d = d \<lparr> orders := map (update_status d) (orders d) \<rparr>"

section \<open>Calls that overlap\<close>

text \<open>
  Several calls of \<^verbatim>\<open>POST /api/placeOrder\<close> are under way at once, each with its time,
  its body and the point it has reached. An event lets one of them take its next step,
  or is a call of \<^verbatim>\<open>PUT /api/kitchenNext\<close>, whose single \<^verbatim>\<open>UPDATE\<close> reads and writes
  the orders at one moment. The handler of \<^verbatim>\<open>POST /api/placeOrder\<close> takes no lock, and
  the rows a transaction has inserted are seen by the others from its \<^verbatim>\<open>COMMIT\<close> on.
\<close>

type_synonym call = "int \<times> order_request \<times> placing"

datatype event = Step nat | Next

fun interleave ::
  "ingredient_row row_order \<Rightarrow> event list \<Rightarrow> call list \<Rightarrow> db \<Rightarrow> call list \<times> db" where
  "interleave p [] calls d = (calls, d)"
| "interleave p (Step i # events) calls d =
     (if i < length calls
      then (case calls ! i of (now, order', st) \<Rightarrow>
              (case placeOrder_step p now order' st d of (st', d') \<Rightarrow>
                 interleave p events (calls [i := (now, order', st')]) d'))
      else interleave p events calls d)"
| "interleave p (Next # events) calls d = interleave p events calls (kitchenNext d)"

text \<open>Calls one after the other: each is answered before the next begins.\<close>

datatype lane_op = Place int order_request | Advance

fun in_turn :: "ingredient_row row_order \<Rightarrow> lane_op list \<Rightarrow> db \<Rightarrow> db" where
  "in_turn p [] d = d"
| "in_turn p (Place now order' # ops) d = in_turn p ops (snd (placeOrder p d now order'))"
| "in_turn p (Advance # ops) d = in_turn p ops (kitchenNext d)"

section \<open>GET /api/kitchenOrders?source=kitchen\<close>

















section \<open>Notions used in the statements\<close>

text \<open>
  The joined rows of the query with the product taken in the integers, in the order of
  the joins; and the carts for which the store answers the query: every id and every
  quantity of the cart, and the product on every joined row, is in the range of
  \<^verbatim>\<open>integer\<close>.
\<close>

definition demand_row :: "menu_ingredients_row \<Rightarrow> inventory_row \<Rightarrow> SelectedItem \<Rightarrow> ingredient_row" where
  "demand_row mi i oi =
     \<lparr> row_menu_item_id = mi_menu_item_id mi,
       row_inventory_id = mi_inventory_id mi,
       total_quantity_needed = quantity_needed mi * sel_quantity oi,
       row_item_name = item_name i,
       row_stock_level = stock_level i,
       row_item_id = sel_id oi,
       menu_name = sel_name oi,
       quantity = sel_quantity oi \<rparr>"

definition demand_rows :: "db \<Rightarrow> SelectedItem list \<Rightarrow> ingredient_row list" where
  "demand_rows d cart =
     concat (map (\<lambda>mi.
       concat (map (\<lambda>i.
         map (\<lambda>oi. demand_row mi i oi)
           (filter (\<lambda>oi. mi_menu_item_id mi = sel_id oi) cart))
         (filter (\<lambda>i. mi_inventory_id mi = inventory_id i) (inventory d))))
       (menu_ingredients d))"

definition query_ok :: "db \<Rightarrow> SelectedItem list \<Rightarrow> bool" where
  "query_ok d cart \<longleftrightarrow>
     list_all (\<lambda>oi. int4 (sel_id oi) \<and> int4 (sel_quantity oi)) cart \<and>
     list_all (\<lambda>r. int4 (total_quantity_needed r)) (demand_rows d cart)"

text \<open>
  The demand for an ingredient as the checker totals it: over the rows of the query
  that carry one \<open>item_name\<close>, the sum of \<open>total_quantity_needed\<close>; and the texts of
  the menu items that use it, in the order of the rows.
\<close>

definition name_total :: "ingredient_row list \<Rightarrow> string \<Rightarrow> int" where
  "name_total rows n =
     sum_list (map total_quantity_needed (filter (\<lambda>r. row_item_name r = n) rows))"

definition name_uses :: "ingredient_row list \<Rightarrow> string \<Rightarrow> string list" where
  "name_uses rows n =
     map (\<lambda>r. menu_name r @ '' x'' @ toString (quantity r))
       (filter (\<lambda>r. row_item_name r = n) rows)"

text \<open>
  The demand on one inventory row, as the specification describes it: every cart line
  is expanded by the recipe of its menu item, and the products of recipe quantity and
  quantity ordered are summed over the recipe entries that refer to the row by its id.
\<close>

definition item_demand :: "db \<Rightarrow> SelectedItem list \<Rightarrow> int \<Rightarrow> int" where
  "item_demand d cart inv_id =
     sum_list (concat (map (\<lambda>line.
        map (\<lambda>mi. quantity_needed mi * sel_quantity line)
          (filter (\<lambda>mi. mi_menu_item_id mi = sel_id line \<and> mi_inventory_id mi = inv_id)
             (menu_ingredients d))) cart))"

text \<open>A row is short when its stock level is below the total under its name.\<close>

definition is_low :: "ingredient_row list \<Rightarrow> ingredient_row \<Rightarrow> bool" where
  "is_low rows r \<longleftrightarrow> row_stock_level r < name_total rows (row_item_name r)"

text \<open>The shortage object reported for a row.\<close>

definition low_of :: "ingredient_row list \<Rightarrow> ingredient_row \<Rightarrow> low_stock" where
  "low_of rows r =
     \<lparr> low_ingredientName = row_item_name r,
       currStock = row_stock_level r,
       neededStock = name_total rows (row_item_name r),
       menuItemsUsing = name_uses rows (row_item_name r) \<rparr>"

text \<open>
  The two halves of \<open>row_step\<close>, each on its own map: what a row does to
  \<open>allIngredientsUsed\<close>, and the ingredient it pushes into \<open>itemToIngredientMap\<close>.
\<close>

definition usage_or_default :: "usage option \<Rightarrow> usage" where
  "usage_or_default x = (case x of Some v \<Rightarrow> v | None \<Rightarrow> \<lparr> total = 0, itemUsed = [] \<rparr>)"

definition use_step :: "ingredient_row \<Rightarrow> ingredients_used \<Rightarrow> ingredients_used" where
  "use_step row u =
     (let temp = (case u (row_item_name row) of Some v \<Rightarrow> v | None \<Rightarrow> \<lparr> total = 0, itemUsed = [] \<rparr>)
      in fun_upd u (row_item_name row)
           (Some \<lparr> total = total temp + total_quantity_needed row,
                   itemUsed = itemUsed temp @ [menu_name row @ '' x'' @ toString (quantity row)] \<rparr>))"

definition ingredient_of :: "ingredient_row \<Rightarrow> Ingredients" where
  "ingredient_of row = \<lparr> ingredientName = row_item_name row, amount = total_quantity_needed row \<rparr>"

text \<open>
  The entry a cart line starts with, an entry after the rows of its key have been
  pushed, and the list returned when nothing is short.
\<close>

definition item_of :: "SelectedItem \<Rightarrow> Item" where
  "item_of selectedItem =
     \<lparr> entry_name = sel_name selectedItem,
       entry_amount = sel_quantity selectedItem,
       entry_ingredient = [] \<rparr>"

definition add_ingredients :: "ingredient_row list \<Rightarrow> int \<times> Item \<Rightarrow> int \<times> Item" where
  "add_ingredients rows p =
     (fst p, (snd p) \<lparr> entry_ingredient := entry_ingredient (snd p) @
                  map ingredient_of (filter (\<lambda>r. row_menu_item_id r = fst p) rows) \<rparr>)"

definition breakdown :: "SelectedItem list \<Rightarrow> ingredient_row list \<Rightarrow> Item list" where
  "breakdown cart rows = map (\<lambda>p. snd (add_ingredients rows p)) (init_item_map cart)"

text \<open>The rows a transaction is to write when it commits, for a body and an order id.\<close>

definition lines_of :: "int \<Rightarrow> SelectedItem list \<Rightarrow> order_menu_row list" where
  "lines_of orderID itemOrdered =
     map (\<lambda>selectedItem.
            \<lparr> om_order_id = orderID,
              om_menu_item_id = sel_id selectedItem,
              quantity_ordered = sel_quantity selectedItem \<rparr>) itemOrdered"

text \<open>
  What a call holds in its transaction while it inserts the lines: a row with the total
  and the employee of the body, and the lines of the body up to the one it has reached.
\<close>

fun placing_ok :: "order_request \<Rightarrow> placing \<Rightarrow> bool" where
  "placing_ok order' (Adding_lines orderID row rest lines) \<longleftrightarrow>
     order_id row = orderID \<and> employee_id row = emID order' \<and>
     order_total row = req_total order' \<and>
     lines @ lines_of orderID rest = lines_of orderID (itemAmount order')"
| "placing_ok order' st \<longleftrightarrow> True"

section \<open>Concrete states and carts\<close>

text \<open>
  Scenario A of the specification: Entree-X needs 2 units of Ingredient-Y, of which 5
  are in stock; the cart orders two of Entree-X. Scenario B is the same with 3 in stock.
\<close>

definition scenario_A_db :: db where
  "scenario_A_db =
     \<lparr> inventory = [\<lparr> inventory_id = 1, item_name = ''Ingredient-Y'', stock_level = 5,
                       purchase_price = 1 \<rparr>],
       menu = [\<lparr> menu_item_id = 1, menu_item_name = ''Entree-X'', sales_price = 10 \<rparr>],
       menu_ingredients = [\<lparr> mi_menu_item_id = 1, mi_inventory_id = 1, quantity_needed = 2 \<rparr>],
       orders = [],
       order_menu = [],
       orders_order_id_seq = 0 \<rparr>"

definition scenario_B_db :: db where
  "scenario_B_db =
     scenario_A_db \<lparr> inventory := [\<lparr> inventory_id = 1, item_name = ''Ingredient-Y'',
                                     stock_level = 3, purchase_price = 1 \<rparr>] \<rparr>"

definition scenario_cart :: "SelectedItem list" where
  "scenario_cart = [\<lparr> sel_id = 1, sel_name = ''Entree-X'', sel_price = 10, sel_quantity = 2 \<rparr>]"

text \<open>The body the client sends for that cart: the lines, and 21.65 as the total.\<close>

definition scenario_request :: order_request where
  "scenario_request = \<lparr> itemAmount = scenario_cart, req_total = 433 / 20, emID = 7 \<rparr>"

text \<open>A cart that orders three thousand million of Entree-X.\<close>

definition huge_cart :: "SelectedItem list" where
  "huge_cart =
     [\<lparr> sel_id = 1, sel_name = ''Entree-X'', sel_price = 10, sel_quantity = 3000000000 \<rparr>]"

text \<open>A cart with one line, of an id that no recipe has, and the same quantity.\<close>

definition unknown_item_cart :: "SelectedItem list" where
  "unknown_item_cart =
     [\<lparr> sel_id = 99, sel_name = ''Special'', sel_price = 1, sel_quantity = 3000000000 \<rparr>]"

text \<open>
  Two rows of the inventory with one name (nothing in \<^verbatim>\<open>/api/add-inventory\<close> or
  \<^verbatim>\<open>/api/update-inventory\<close> keeps names apart), each used by one menu item.
\<close>

definition shared_name_db :: db where
  "shared_name_db =
     \<lparr> inventory = [\<lparr> inventory_id = 1, item_name = ''rice'', stock_level = 5, purchase_price = 1 \<rparr>,
                    \<lparr> inventory_id = 2, item_name = ''rice'', stock_level = 5, purchase_price = 2 \<rparr>],
       menu = [\<lparr> menu_item_id = 1, menu_item_name = ''bowl'', sales_price = 10 \<rparr>,
               \<lparr> menu_item_id = 2, menu_item_name = ''plate'', sales_price = 12 \<rparr>],
       menu_ingredients = [\<lparr> mi_menu_item_id = 1, mi_inventory_id = 1, quantity_needed = 3 \<rparr>,
                           \<lparr> mi_menu_item_id = 2, mi_inventory_id = 2, quantity_needed = 3 \<rparr>],
       orders = [],
       order_menu = [],
       orders_order_id_seq = 0 \<rparr>"

definition shared_name_cart :: "SelectedItem list" where
  "shared_name_cart =
     [\<lparr> sel_id = 1, sel_name = ''bowl'', sel_price = 10, sel_quantity = 1 \<rparr>,
      \<lparr> sel_id = 2, sel_name = ''plate'', sel_price = 12, sel_quantity = 1 \<rparr>]"

definition shared_name_huge_cart :: "SelectedItem list" where
  "shared_name_huge_cart =
     [\<lparr> sel_id = 1, sel_name = ''bowl'', sel_price = 10, sel_quantity = 1000000000 \<rparr>,
      \<lparr> sel_id = 2, sel_name = ''plate'', sel_price = 12, sel_quantity = 1 \<rparr>]"

text \<open>A body in which the second line has a negative quantity.\<close>

definition negative_cart :: "SelectedItem list" where
  "negative_cart =
     [\<lparr> sel_id = 1, sel_name = ''bowl'', sel_price = 10, sel_quantity = 2 \<rparr>,
      \<lparr> sel_id = 2, sel_name = ''plate'', sel_price = 12, sel_quantity = - 1 \<rparr>]"

text \<open>The two rows of one name with 8 and 20 in stock, used 3 and 6 at a time.\<close>

definition rice_db :: db where
  "rice_db =
     \<lparr> inventory = [\<lparr> inventory_id = 1, item_name = ''rice'', stock_level = 8, purchase_price = 1 \<rparr>,
                    \<lparr> inventory_id = 2, item_name = ''rice'', stock_level = 20, purchase_price = 2 \<rparr>],
       menu = [\<lparr> menu_item_id = 1, menu_item_name = ''bowl'', sales_price = 10 \<rparr>,
               \<lparr> menu_item_id = 2, menu_item_name = ''plate'', sales_price = 12 \<rparr>],
       menu_ingredients = [\<lparr> mi_menu_item_id = 1, mi_inventory_id = 1, quantity_needed = 3 \<rparr>,
                           \<lparr> mi_menu_item_id = 2, mi_inventory_id = 2, quantity_needed = 6 \<rparr>],
       orders = [],
       order_menu = [],
       orders_order_id_seq = 0 \<rparr>"

text \<open>A menu item with two ingredients, of which neither is in stock for one serving.\<close>

definition two_short_db :: db where
  "two_short_db =
     \<lparr> inventory = [\<lparr> inventory_id = 1, item_name = ''beef'', stock_level = 1, purchase_price = 4 \<rparr>,
                    \<lparr> inventory_id = 2, item_name = ''rice'', stock_level = 1, purchase_price = 1 \<rparr>],
       menu = [\<lparr> menu_item_id = 1, menu_item_name = ''bowl'', sales_price = 10 \<rparr>],
       menu_ingredients = [\<lparr> mi_menu_item_id = 1, mi_inventory_id = 1, quantity_needed = 2 \<rparr>,
                           \<lparr> mi_menu_item_id = 1, mi_inventory_id = 2, quantity_needed = 3 \<rparr>],
       orders = [],
       order_menu = [],
       orders_order_id_seq = 0 \<rparr>"

definition bowl_cart :: "SelectedItem list" where
  "bowl_cart = [\<lparr> sel_id = 1, sel_name = ''bowl'', sel_price = 10, sel_quantity = 1 \<rparr>]"

section \<open>The lane read from the statuses\<close>

text \<open>The lane invariant of the specification: at most one order is building.\<close>

definition lane_ok :: "db \<Rightarrow> bool" where
  "lane_ok d \<longleftrightarrow> length (filter (\<lambda>ord. order_status ord = building) (orders d)) \<le> 1"

text \<open>
  The order that is being built and has the least id among those, and the waiting
  order with the least id.
\<close>

definition finishes :: "db \<Rightarrow> orders_row \<Rightarrow> bool" where
  "finishes d ord \<longleftrightarrow> order_status ord = building \<and>
     (\<forall>b\<in>set (orders d). order_status b = building \<longrightarrow> order_id ord \<le> order_id b)"

definition promoted :: "db \<Rightarrow> orders_row \<Rightarrow> bool" where
  "promoted d ord \<longleftrightarrow> order_status ord = waiting \<and>
     (\<forall>w\<in>set (orders d). order_status w = waiting \<longrightarrow> order_id ord \<le> order_id w)"

text \<open>A lane with one order building and two waiting, and a state with two orders building.\<close>

definition lane_db :: db where
  "lane_db =
     scenario_A_db \<lparr> orders :=
       [\<lparr> order_id = 1, employee_id = 7, order_time = 1000, order_total = 20, order_status = building \<rparr>,
        \<lparr> order_id = 2, employee_id = 7, order_time = 1001, order_total = 20, order_status = waiting \<rparr>,
        \<lparr> order_id = 3, employee_id = 7, order_time = 1002, order_total = 20, order_status = waiting \<rparr>],
       orders_order_id_seq := 3 \<rparr>"


text \<open>
  Two calls of \<^verbatim>\<open>POST /api/placeOrder\<close> that arrive together, and the events in which
  each takes a step in turn until both are answered.
\<close>

definition two_calls :: "call list" where
  "two_calls = [(1000, scenario_request, Checking), (1001, scenario_request, Checking)]"

definition turn_about :: "event list" where
  "turn_about = [Step 0, Step 1, Step 0, Step 1, Step 0, Step 1, Step 0, Step 1, Step 0, Step 1]"

section \<open>The kitchen view read from the answer\<close>




text \<open>Scenario A after the client has placed the cart.\<close>

definition placed_db :: db where
  "placed_db = snd (placeOrder (\<lambda>rows. rows) scenario_A_db 1000 scenario_request)"

section \<open>Facts about checkSufficientIngredients\<close>

lemma row_step_Inr:
  "row_step row (u, m) = Inr st' \<Longrightarrow>
     \<exists>it. map_of m (row_menu_item_id row) = Some it \<and>
       st' = (use_step row u,
              AList.update (row_menu_item_id row)
                (it \<lparr> entry_ingredient := entry_ingredient it @ [ingredient_of row] \<rparr>) m)"
  by (auto simp: row_step.simps use_step_def ingredient_of_def Let_def split: option.splits)

lemma row_step_defined:
  "row_menu_item_id row \<in> fst ` set m \<Longrightarrow> \<exists>st'. row_step row (u, m) = Inr st'"
  by (cases "map_of m (row_menu_item_id row)")
     (auto simp: row_step.simps Let_def map_of_eq_None_iff)

lemma update_distinct_map:
  "distinct (map fst m) \<Longrightarrow> map_of m k = Some v \<Longrightarrow>
     AList.update k w m = map (\<lambda>p. if fst p = k then (k, w) else p) m"
proof (induction m)
  case Nil
  then show ?case by simp
next
  case (Cons p m)
  show ?case
  proof (cases "fst p = k")
    case True
    with Cons.prems have "k \<notin> fst ` set m" by auto
    then have "map (\<lambda>p. if fst p = k then (k, w) else p) m = m"
      by (induction m) auto
    with True show ?thesis by (cases p) simp
  next
    case False
    with Cons show ?thesis by (cases p) auto
  qed
qed

lemma row_step_items:
  assumes "distinct (map fst m)" and "row_step row (u, m) = Inr (u', m')"
  shows "u' = use_step row u \<and> m' = map (add_ingredients [row]) m"
proof -
  from row_step_Inr [OF assms(2)] obtain it where
    it: "map_of m (row_menu_item_id row) = Some it" and
    st: "(u', m') = (use_step row u,
              AList.update (row_menu_item_id row)
                (it \<lparr> entry_ingredient := entry_ingredient it @ [ingredient_of row] \<rparr>) m)"
    by blast
  have "AList.update (row_menu_item_id row)
          (it \<lparr> entry_ingredient := entry_ingredient it @ [ingredient_of row] \<rparr>) m
        = map (\<lambda>p. if fst p = row_menu_item_id row
                 then (row_menu_item_id row, it \<lparr> entry_ingredient := entry_ingredient it @ [ingredient_of row] \<rparr>)
                 else p) m"
    using assms(1) it by (rule update_distinct_map)
  also have "\<dots> = map (add_ingredients [row]) m"
  proof (rule map_cong [OF refl])
    fix p assume p: "p \<in> set m"
    show "(if fst p = row_menu_item_id row
            then (row_menu_item_id row, it \<lparr> entry_ingredient := entry_ingredient it @ [ingredient_of row] \<rparr>)
            else p) = add_ingredients [row] p"
    proof (cases "fst p = row_menu_item_id row")
      case True
      from p assms(1) have "map_of m (fst p) = Some (snd p)"
        by simp
      with True it have "snd p = it" by simp
      with True show ?thesis by (cases p) (simp add: add_ingredients_def)
    next
      case False
      then show ?thesis by (cases p) (auto simp: add_ingredients_def)
    qed
  qed
  finally show ?thesis using st by simp
qed

lemma add_ingredients_fst [simp]: "fst (add_ingredients rows p) = fst p"
  by (simp add: add_ingredients_def)

lemma add_ingredients_Cons:
  "add_ingredients rows (add_ingredients [row] p) = add_ingredients (row # rows) p"
  by (simp add: add_ingredients_def)

lemma add_ingredients_Nil [simp]: "add_ingredients [] p = p"
  by (simp add: add_ingredients_def)

lemma process_rows_Inr:
  "distinct (map fst m) \<Longrightarrow> process_rows rows (u, m) = Inr (u', m') \<Longrightarrow>
     u' = fold use_step rows u \<and> m' = map (add_ingredients rows) m"
proof (induction rows arbitrary: u m)
  case Nil
  then show ?case by simp
next
  case (Cons row rows)
  from Cons.prems(2) obtain u1 m1 where
    s1: "row_step row (u, m) = Inr (u1, m1)" and
    s2: "process_rows rows (u1, m1) = Inr (u', m')"
    by (auto split: sum.splits)
  from row_step_items [OF Cons.prems(1) s1] have
    u1: "u1 = use_step row u" and m1: "m1 = map (add_ingredients [row]) m"
    by simp_all
  have "distinct (map fst m1)"
    using Cons.prems(1) by (simp add: m1 comp_def)
  from Cons.IH [OF this s2] show ?case
    by (simp add: u1 m1 comp_def add_ingredients_Cons)
qed

lemma process_rows_defined:
  "distinct (map fst m) \<Longrightarrow> \<forall>r\<in>set rows. row_menu_item_id r \<in> fst ` set m \<Longrightarrow>
     \<exists>st'. process_rows rows (u, m) = Inr st'"
proof (induction rows arbitrary: u m)
  case Nil
  then show ?case by simp
next
  case (Cons row rows)
  from Cons.prems(2) have "row_menu_item_id row \<in> fst ` set m" by simp
  from row_step_defined [OF this] obtain u1 m1 where
    s1: "row_step row (u, m) = Inr (u1, m1)" by (metis surj_pair)
  from row_step_items [OF Cons.prems(1) s1] have
    m1: "m1 = map (add_ingredients [row]) m" by simp
  have d: "distinct (map fst m1)"
    using Cons.prems(1) by (simp add: m1 comp_def)
  have k: "\<forall>r\<in>set rows. row_menu_item_id r \<in> fst ` set m1"
    using Cons.prems(2) by (simp add: m1 image_image)
  from Cons.IH [OF d k] show ?case
    by (simp add: s1)
qed

lemma use_step_apply:
  "use_step row u n =
     (if row_item_name row = n
      then Some \<lparr> total = total (usage_or_default (u n)) + total_quantity_needed row,
                  itemUsed = itemUsed (usage_or_default (u n)) @
                               [menu_name row @ '' x'' @ toString (quantity row)] \<rparr>
      else u n)"
  by (simp add: use_step_def usage_or_default_def Let_def)

lemma fold_use_step:
  "fold use_step rows u n =
     (if filter (\<lambda>r. row_item_name r = n) rows = [] then u n
      else Some \<lparr> total = total (usage_or_default (u n)) + name_total rows n,
                  itemUsed = itemUsed (usage_or_default (u n)) @ name_uses rows n \<rparr>)"
proof (induction rows arbitrary: u)
  case Nil
  then show ?case by simp
next
  case (Cons row rows)
  have "fold use_step (row # rows) u n = fold use_step rows (use_step row u) n"
    by simp
  also have "\<dots> =
     (if filter (\<lambda>r. row_item_name r = n) rows = [] then use_step row u n
      else Some \<lparr> total = total (usage_or_default (use_step row u n)) + name_total rows n,
                  itemUsed = itemUsed (usage_or_default (use_step row u n)) @ name_uses rows n \<rparr>)"
    by (rule Cons.IH)
  also have "\<dots> =
     (if filter (\<lambda>r. row_item_name r = n) (row # rows) = [] then u n
      else Some \<lparr> total = total (usage_or_default (u n)) + name_total (row # rows) n,
                  itemUsed = itemUsed (usage_or_default (u n)) @ name_uses (row # rows) n \<rparr>)"
    by (simp add: use_step_apply name_total_def name_uses_def usage_or_default_def)
  finally show ?case .
qed

lemma fold_use_step_empty:
  "r \<in> set rows \<Longrightarrow>
     fold use_step rows Map.empty (row_item_name r) =
       Some \<lparr> total = name_total rows (row_item_name r), itemUsed = name_uses rows (row_item_name r) \<rparr>"
  by (auto simp: fold_use_step usage_or_default_def filter_empty_conv)

lemma first_low_find:
  "\<forall>r\<in>set rs. u (row_item_name r) =
       Some \<lparr> total = name_total rows (row_item_name r), itemUsed = name_uses rows (row_item_name r) \<rparr> \<Longrightarrow>
   first_low rs u = Inr (map_option (low_of rows) (find (is_low rows) rs))"
  by (induction rs) (auto simp: low_of_def is_low_def)

lemma set_update_subset: "set (AList.update k v al) \<subseteq> insert (k, v) (set al)"
  by (induction al) auto

lemma init_item_map_fold:
  "init_item_map cart = fold (\<lambda>sel. AList.update (sel_id sel) (item_of sel)) cart []"
  by (simp add: init_item_map_def item_of_def)

lemma fold_update_distinct:
  "distinct (map fst acc) \<Longrightarrow>
     distinct (map fst (fold (\<lambda>sel. AList.update (sel_id sel) (item_of sel)) cart acc))"
  by (induction cart arbitrary: acc) (simp_all add: AList.distinct_update)

lemma fold_update_keys:
  "fst ` set (fold (\<lambda>sel. AList.update (sel_id sel) (item_of sel)) cart acc) =
     fst ` set acc \<union> sel_id ` set cart"
  by (induction cart arbitrary: acc) (auto simp: AList.dom_update)

lemma fold_update_entries:
  "p \<in> set (fold (\<lambda>sel. AList.update (sel_id sel) (item_of sel)) cart acc) \<Longrightarrow>
     p \<in> set acc \<or> (\<exists>sel\<in>set cart. p = (sel_id sel, item_of sel))"
proof (induction cart arbitrary: acc)
  case Nil
  then show ?case by simp
next
  case (Cons sel cart)
  from Cons.prems have
    "p \<in> set (fold (\<lambda>sel. AList.update (sel_id sel) (item_of sel)) cart
                 (AList.update (sel_id sel) (item_of sel) acc))"
    by simp
  from Cons.IH [OF this] show ?case
    using set_update_subset [of "sel_id sel" "item_of sel" acc] by auto
qed

lemma fold_update_append:
  "distinct (map sel_id cart) \<Longrightarrow> sel_id ` set cart \<inter> fst ` set acc = {} \<Longrightarrow>
     fold (\<lambda>sel. AList.update (sel_id sel) (item_of sel)) cart acc =
       acc @ map (\<lambda>sel. (sel_id sel, item_of sel)) cart"
proof (induction cart arbitrary: acc)
  case Nil
  then show ?case by simp
next
  case (Cons sel cart)
  from Cons.prems(2) have "sel_id sel \<notin> fst ` set acc" by auto
  then have u: "AList.update (sel_id sel) (item_of sel) acc = acc @ [(sel_id sel, item_of sel)]"
    by (induction acc) auto
  have "sel_id ` set cart \<inter> fst ` set (acc @ [(sel_id sel, item_of sel)]) = {}"
    using Cons.prems by auto
  with Cons.IH [of "acc @ [(sel_id sel, item_of sel)]"] Cons.prems(1) u show ?case
    by simp
qed

lemma init_item_map_distinct: "distinct (map fst (init_item_map cart))"
  by (simp add: init_item_map_fold fold_update_distinct)

lemma init_item_map_keys: "fst ` set (init_item_map cart) = sel_id ` set cart"
  by (simp add: init_item_map_fold fold_update_keys)

lemma init_item_map_entries:
  "p \<in> set (init_item_map cart) \<Longrightarrow> \<exists>sel\<in>set cart. p = (sel_id sel, item_of sel)"
  using fold_update_entries [of p cart "[]"] by (simp add: init_item_map_fold)

lemma init_item_map_distinct_ids:
  "distinct (map sel_id cart) \<Longrightarrow> init_item_map cart = map (\<lambda>sel. (sel_id sel, item_of sel)) cart"
  using fold_update_append [of cart "[]"] by (simp add: init_item_map_fold)

lemma check_rows_eq:
  assumes "\<forall>r\<in>set rows. row_menu_item_id r \<in> sel_id ` set cart"
  shows "check_rows cart rows =
           Inr (case find (is_low rows) rows of
                  Some r \<Rightarrow> Low (low_of rows r)
                | None \<Rightarrow> NotLow (breakdown cart rows))"
proof -
  have d: "distinct (map fst (init_item_map cart))"
    by (rule init_item_map_distinct)
  have k: "\<forall>r\<in>set rows. row_menu_item_id r \<in> fst ` set (init_item_map cart)"
    using assms by (simp add: init_item_map_keys)
  from process_rows_defined [OF d k] obtain u' m' where
    p: "process_rows rows (Map.empty, init_item_map cart) = Inr (u', m')"
    by (metis surj_pair)
  from process_rows_Inr [OF d p] have
    u': "u' = fold use_step rows Map.empty" and
    m': "m' = map (add_ingredients rows) (init_item_map cart)"
    by simp_all
  have "first_low rows u' = Inr (map_option (low_of rows) (find (is_low rows) rows))"
    by (rule first_low_find) (simp add: u' fold_use_step_empty)
  then show ?thesis
    by (simp add: check_rows_def p m' breakdown_def comp_def split: option.splits)
qed

lemma reorders_set: "reorders p \<Longrightarrow> set (p xs) = set xs"
  unfolding reorders_def by (metis set_mset_mset)

lemma reorders_sum:
  fixes f :: "'a \<Rightarrow> int"
  assumes "reorders p"
  shows "sum_list (map f (filter P (p xs))) = sum_list (map f (filter P xs))"
proof -
  have "sum_list (map f (filter P (p xs))) = sum_mset (image_mset f (filter_mset P (mset (p xs))))"
    by (simp add: sum_mset_sum_list [symmetric])
  also have "mset (p xs) = mset xs"
    using assms by (simp add: reorders_def)
  also have "sum_mset (image_mset f (filter_mset P (mset xs))) = sum_list (map f (filter P xs))"
    by (simp add: sum_mset_sum_list [symmetric])
  finally show ?thesis .
qed

lemma name_total_reorder: "reorders p \<Longrightarrow> name_total (p rows) n = name_total rows n"
  unfolding name_total_def by (rule reorders_sum)

lemma is_low_reorder: "reorders p \<Longrightarrow> is_low (p rows) = is_low rows"
  by (rule ext) (simp add: is_low_def name_total_reorder)

lemma reorders_id: "reorders (\<lambda>rows. rows)"
  by (simp add: reorders_def)

lemma reorders_rev: "reorders rev"
  by (simp add: reorders_def)

lemma joined_row_demand:
  "joined_row mi i oi =
     (if int4 (total_quantity_needed (demand_row mi i oi)) then Inr (demand_row mi i oi)
      else Inl DatabaseError)"
  by (simp add: joined_row_def demand_row_def)

lemma ingredient_join_map:
  "ingredient_join d cart =
     map (\<lambda>r. if int4 (total_quantity_needed r) then Inr r else Inl DatabaseError)
       (demand_rows d cart)"
proof -
  have "joined_row mi i =
          (\<lambda>oi. if int4 (total_quantity_needed (demand_row mi i oi)) then Inr (demand_row mi i oi)
                else Inl DatabaseError)" for mi i
    by (rule ext) (rule joined_row_demand)
  then show ?thesis
    unfolding ingredient_join_def demand_rows_def
    by (simp add: map_concat comp_def)
qed

lemma collect_map:
  "collect (map (\<lambda>r. if P r then Inr r else Inl e) rows) =
     (if list_all P rows then Inr rows else Inl e)"
  by (induction rows) auto

lemma ingredient_query_eq:
  "ingredient_query p d cart =
     (if query_ok d cart then Inr (p (demand_rows d cart)) else Inl DatabaseError)"
  by (simp add: ingredient_query_def query_ok_def ingredient_join_map collect_map)

lemma demand_rows_iff:
  "r \<in> set (demand_rows d cart) \<longleftrightarrow>
     (\<exists>mi\<in>set (menu_ingredients d). \<exists>i\<in>set (inventory d). \<exists>oi\<in>set cart.
        mi_inventory_id mi = inventory_id i \<and> mi_menu_item_id mi = sel_id oi \<and>
        r = demand_row mi i oi)"
  unfolding demand_rows_def by auto

lemma demand_rows_keys:
  "\<forall>r\<in>set (demand_rows d cart). row_menu_item_id r \<in> sel_id ` set cart"
  by (auto simp: demand_rows_iff demand_row_def)

lemma check_fails:
  "\<not> query_ok d cart \<Longrightarrow> checkSufficientIngredients p d cart = Inl DatabaseError"
  by (simp add: checkSufficientIngredients_def ingredient_query_eq)

lemma checkSufficientIngredients_eq:
  assumes "reorders p" "query_ok d cart"
  shows "checkSufficientIngredients p d cart =
     Inr (case find (is_low (demand_rows d cart)) (p (demand_rows d cart)) of
            Some r \<Rightarrow> Low (low_of (p (demand_rows d cart)) r)
          | None \<Rightarrow> NotLow (breakdown cart (p (demand_rows d cart))))"
proof -
  have "\<forall>r\<in>set (p (demand_rows d cart)). row_menu_item_id r \<in> sel_id ` set cart"
    using demand_rows_keys [of d cart] by (simp add: reorders_set [OF assms(1)])
  from check_rows_eq [OF this] show ?thesis
    by (simp add: checkSufficientIngredients_def ingredient_query_eq assms(2)
          is_low_reorder [OF assms(1)])
qed

lemma check_frame:
  "inventory d' = inventory d \<Longrightarrow> menu_ingredients d' = menu_ingredients d \<Longrightarrow>
     checkSufficientIngredients p d' cart = checkSufficientIngredients p d cart"
  by (simp add: checkSufficientIngredients_def ingredient_query_def ingredient_join_def)

lemma sum_list_filter_if:
  "sum_list (map f (filter P xs)) = sum_list (map (\<lambda>x. if P x then f x else (0::int)) xs)"
  by (induction xs) simp_all

lemma sum_list_swap:
  "sum_list (map (\<lambda>x. sum_list (map (f x) ys)) xs) =
   sum_list (map (\<lambda>y. sum_list (map (\<lambda>x. (f x y :: int)) xs)) ys)"
proof (induction xs)
  case Nil
  then show ?case by simp
next
  case (Cons x xs)
  then show ?case by (simp add: sum_list_addf)
qed

lemma sum_list_if_const:
  "sum_list (map (\<lambda>x. if c then f x else (0::int)) xs) = (if c then sum_list (map f xs) else 0)"
  by simp

lemma sum_list_concat_map:
  "sum_list (concat (map f xs)) = sum_list (map (\<lambda>x. sum_list (f x :: int list)) xs)"
  by (induction xs) simp_all

lemma name_total_query:
  "name_total (demand_rows d cart) n =
     sum_list (map (\<lambda>mi. sum_list (map (\<lambda>i. sum_list (map (\<lambda>oi.
        if mi_inventory_id mi = inventory_id i \<and> mi_menu_item_id mi = sel_id oi \<and> item_name i = n
        then quantity_needed mi * sel_quantity oi else 0) cart)) (inventory d))) (menu_ingredients d))"
  unfolding name_total_def demand_rows_def
  apply (simp add: filter_concat map_concat comp_def sum_list_concat_map filter_map)
  apply (simp add: sum_list_filter_if demand_row_def comp_def)
  apply (rule arg_cong [where f = sum_list], rule map_cong [OF refl])
  apply (rule arg_cong [where f = sum_list], rule map_cong [OF refl])
  subgoal for mi i by (cases "mi_inventory_id mi = inventory_id i") simp_all
  done

lemma item_demand_sum:
  "item_demand d cart k =
     sum_list (map (\<lambda>oi. sum_list (map (\<lambda>mi.
        if mi_menu_item_id mi = sel_id oi \<and> mi_inventory_id mi = k
        then quantity_needed mi * sel_quantity oi else 0) (menu_ingredients d))) cart)"
  unfolding item_demand_def
  by (simp add: sum_list_concat_map sum_list_filter_if comp_def)

lemma name_total_item_demand:
  "name_total (demand_rows d cart) n =
     sum_list (map (\<lambda>i. item_demand d cart (inventory_id i))
       (filter (\<lambda>i. item_name i = n) (inventory d)))"
proof -
  let ?f = "\<lambda>mi i oi.
        if mi_inventory_id mi = inventory_id i \<and> mi_menu_item_id mi = sel_id oi \<and> item_name i = n
        then quantity_needed mi * sel_quantity oi else 0"
  have "name_total (demand_rows d cart) n =
      sum_list (map (\<lambda>mi. sum_list (map (\<lambda>i. sum_list (map (?f mi i) cart)) (inventory d)))
        (menu_ingredients d))"
    by (rule name_total_query)
  also have "\<dots> = sum_list (map (\<lambda>i. sum_list (map (\<lambda>mi. sum_list (map (?f mi i) cart))
        (menu_ingredients d))) (inventory d))"
    by (rule sum_list_swap)
  also have "\<dots> = sum_list (map (\<lambda>i. sum_list (map (\<lambda>oi. sum_list (map (\<lambda>mi. ?f mi i oi)
        (menu_ingredients d))) cart)) (inventory d))"
    by (rule arg_cong [where f = sum_list], rule map_cong [OF refl]) (rule sum_list_swap)
  also have "\<dots> = sum_list (map (\<lambda>i. if item_name i = n then item_demand d cart (inventory_id i) else 0)
        (inventory d))"
  proof (rule arg_cong [where f = sum_list], rule map_cong [OF refl])
    fix i :: "'a inventory_row_scheme"
    show "sum_list (map (\<lambda>oi. sum_list (map (\<lambda>mi. ?f mi i oi) (menu_ingredients d))) cart) =
          (if item_name i = n then item_demand d cart (inventory_id i) else 0)"
      by (cases "item_name i = n") (simp_all add: item_demand_sum conj_commute eq_commute)
  qed
  also have "\<dots> = sum_list (map (\<lambda>i. item_demand d cart (inventory_id i))
       (filter (\<lambda>i. item_name i = n) (inventory d)))"
    by (simp add: sum_list_filter_if)
  finally show ?thesis .
qed

lemma find_first:
  "\<exists>x\<in>set xs. P x \<Longrightarrow>
     \<exists>pre x post. xs = pre @ x # post \<and> P x \<and> (\<forall>p\<in>set pre. \<not> P p) \<and> find P xs = Some x"
proof (induction xs)
  case Nil
  then show ?case by simp
next
  case (Cons a xs)
  show ?case
  proof (cases "P a")
    case True
    then have "a # xs = [] @ a # xs \<and> P a \<and> (\<forall>p\<in>set []. \<not> P p) \<and> find P (a # xs) = Some a"
      by simp
    then show ?thesis by blast
  next
    case False
    with Cons.prems have "\<exists>x\<in>set xs. P x" by auto
    from Cons.IH [OF this] obtain pre x post where
      "xs = pre @ x # post" "P x" "\<forall>p\<in>set pre. \<not> P p" "find P xs = Some x"
      by blast
    with False have
      "a # xs = (a # pre) @ x # post \<and> P x \<and> (\<forall>p\<in>set (a # pre). \<not> P p) \<and> find P (a # xs) = Some x"
      by simp
    then show ?thesis by blast
  qed
qed

lemma find_None_all: "find P xs = None \<longleftrightarrow> (\<forall>x\<in>set xs. \<not> P x)"
  by (induction xs) auto

lemma check_low:
  assumes "reorders p" "query_ok d cart"
    and "\<exists>r\<in>set (demand_rows d cart). is_low (demand_rows d cart) r"
  shows "\<exists>pre r post. p (demand_rows d cart) = pre @ r # post \<and>
           is_low (demand_rows d cart) r \<and>
           (\<forall>x\<in>set pre. \<not> is_low (demand_rows d cart) x) \<and>
           checkSufficientIngredients p d cart =
             Inr (Low \<lparr> low_ingredientName = row_item_name r,
                         currStock = row_stock_level r,
                         neededStock = name_total (demand_rows d cart) (row_item_name r),
                         menuItemsUsing = name_uses (p (demand_rows d cart)) (row_item_name r) \<rparr>)"
proof -
  from assms(3) have "\<exists>r\<in>set (p (demand_rows d cart)). is_low (demand_rows d cart) r"
    by (simp add: reorders_set [OF assms(1)])
  from find_first [OF this] obtain pre r post where
    f: "p (demand_rows d cart) = pre @ r # post" "is_low (demand_rows d cart) r"
    "\<forall>x\<in>set pre. \<not> is_low (demand_rows d cart) x"
    "find (is_low (demand_rows d cart)) (p (demand_rows d cart)) = Some r"
    by blast
  have "checkSufficientIngredients p d cart = Inr (Low (low_of (p (demand_rows d cart)) r))"
    by (simp add: checkSufficientIngredients_eq [OF assms(1,2)] f(4))
  then have "checkSufficientIngredients p d cart =
             Inr (Low \<lparr> low_ingredientName = row_item_name r,
                         currStock = row_stock_level r,
                         neededStock = name_total (demand_rows d cart) (row_item_name r),
                         menuItemsUsing = name_uses (p (demand_rows d cart)) (row_item_name r) \<rparr>)"
    by (simp add: low_of_def name_total_reorder [OF assms(1)])
  with f(1,2,3) show ?thesis by blast
qed

lemma check_not_low:
  assumes "reorders p" "query_ok d cart"
    and "\<forall>r\<in>set (demand_rows d cart). \<not> is_low (demand_rows d cart) r"
  shows "checkSufficientIngredients p d cart =
           Inr (NotLow (breakdown cart (p (demand_rows d cart))))"
proof -
  from assms(3) have "\<forall>r\<in>set (p (demand_rows d cart)). \<not> is_low (demand_rows d cart) r"
    by (simp add: reorders_set [OF assms(1)])
  then have "find (is_low (demand_rows d cart)) (p (demand_rows d cart)) = None"
    by (simp add: find_None_all)
  then show ?thesis
    by (simp add: checkSufficientIngredients_eq [OF assms(1,2)])
qed

lemma check_Low_row:
  assumes "reorders p" "checkSufficientIngredients p d cart = Inr (Low lo)"
  shows "query_ok d cart \<and>
         (\<exists>r\<in>set (demand_rows d cart). is_low (demand_rows d cart) r \<and>
            lo = \<lparr> low_ingredientName = row_item_name r,
                   currStock = row_stock_level r,
                   neededStock = name_total (demand_rows d cart) (row_item_name r),
                   menuItemsUsing = name_uses (p (demand_rows d cart)) (row_item_name r) \<rparr>)"
proof -
  have ok: "query_ok d cart"
  proof (rule ccontr)
    assume "\<not> query_ok d cart"
    from check_fails [OF this, of p] assms(2) show False by simp
  qed
  from assms(2) obtain r where
    f: "find (is_low (demand_rows d cart)) (p (demand_rows d cart)) = Some r" and
    l: "lo = low_of (p (demand_rows d cart)) r"
    by (auto simp: checkSufficientIngredients_eq [OF assms(1) ok] split: option.splits)
  from f have "r \<in> set (p (demand_rows d cart))" "is_low (demand_rows d cart) r"
    by (auto simp: find_Some_iff)
  then have "r \<in> set (demand_rows d cart)" "is_low (demand_rows d cart) r"
    by (simp_all add: reorders_set [OF assms(1)])
  moreover from l have "lo = \<lparr> low_ingredientName = row_item_name r,
                   currStock = row_stock_level r,
                   neededStock = name_total (demand_rows d cart) (row_item_name r),
                   menuItemsUsing = name_uses (p (demand_rows d cart)) (row_item_name r) \<rparr>"
    by (simp add: low_of_def name_total_reorder [OF assms(1)])
  ultimately show ?thesis using ok by blast
qed

lemma breakdown_entry:
  assumes "sel \<in> set cart"
  shows "\<exists>it\<in>set (breakdown cart rows).
           (\<exists>sel'\<in>set cart. sel_id sel' = sel_id sel \<and> entry_name it = sel_name sel' \<and>
              entry_amount it = sel_quantity sel') \<and>
           entry_ingredient it = map ingredient_of (filter (\<lambda>r. row_menu_item_id r = sel_id sel) rows)"
proof -
  from assms have "sel_id sel \<in> fst ` set (init_item_map cart)"
    by (simp add: init_item_map_keys)
  then obtain p where p: "p \<in> set (init_item_map cart)" "fst p = sel_id sel"
    by auto
  from init_item_map_entries [OF p(1)] obtain sel' where
    sel': "sel' \<in> set cart" "p = (sel_id sel', item_of sel')"
    by blast
  let ?it = "snd (add_ingredients rows p)"
  have "?it \<in> set (breakdown cart rows)"
    using p(1) by (auto simp: breakdown_def)
  moreover have "sel_id sel' = sel_id sel"
    using p(2) sel'(2) by simp
  moreover have "entry_name ?it = sel_name sel'" "entry_amount ?it = sel_quantity sel'"
    "entry_ingredient ?it = map ingredient_of (filter (\<lambda>r. row_menu_item_id r = sel_id sel) rows)"
    using p(2) sel'(2) by (simp_all add: add_ingredients_def item_of_def)
  ultimately show ?thesis using sel'(1) by blast
qed

lemma breakdown_sound:
  assumes "it \<in> set (breakdown cart rows)" "g \<in> set (entry_ingredient it)"
  shows "\<exists>r\<in>set rows. g = ingredient_of r"
proof -
  from assms(1) obtain p where p: "p \<in> set (init_item_map cart)" "it = snd (add_ingredients rows p)"
    by (auto simp: breakdown_def)
  from init_item_map_entries [OF p(1)] obtain sel' where
    "p = (sel_id sel', item_of sel')" by blast
  with p(2) assms(2) show ?thesis
    by (auto simp: add_ingredients_def item_of_def)
qed

lemma breakdown_distinct:
  "distinct (map sel_id cart) \<Longrightarrow>
     breakdown cart rows =
       map (\<lambda>sel. \<lparr> entry_name = sel_name sel, entry_amount = sel_quantity sel,
                     entry_ingredient = map ingredient_of
                        (filter (\<lambda>r. row_menu_item_id r = sel_id sel) rows) \<rparr>) cart"
  by (simp add: breakdown_def init_item_map_distinct_ids add_ingredients_def item_of_def comp_def)

text \<open>
  Demand per inventory row against demand per name: when no quantity is negative, the
  demand on the inventory row of a joined row is at most the total under its name.
\<close>

lemma member_le_sum_list_int:
  "\<forall>y\<in>set xs. 0 \<le> (y::int) \<Longrightarrow> x \<in> set xs \<Longrightarrow> x \<le> sum_list xs"
proof (induction xs)
  case Nil
  then show ?case by simp
next
  case (Cons a xs)
  have nn: "0 \<le> sum_list xs" using Cons.prems(1) by (simp add: sum_list_nonneg)
  show ?case
  proof (cases "x = a")
    case True
    with nn show ?thesis by simp
  next
    case False
    with Cons have "x \<le> sum_list xs" by simp
    moreover from Cons.prems(1) have "0 \<le> a" by simp
    ultimately show ?thesis by simp
  qed
qed

lemma item_demand_nonneg:
  assumes "\<forall>mi\<in>set (menu_ingredients d). 0 \<le> quantity_needed mi"
    and "\<forall>oi\<in>set cart. 0 \<le> sel_quantity oi"
  shows "0 \<le> item_demand d cart k"
  unfolding item_demand_def using assms by (intro sum_list_nonneg) auto

lemma row_demand_le_name_total:
  assumes nn: "\<forall>mi\<in>set (menu_ingredients d). 0 \<le> quantity_needed mi"
    "\<forall>oi\<in>set cart. 0 \<le> sel_quantity oi"
    and r: "r \<in> set (demand_rows d cart)"
  shows "item_demand d cart (row_inventory_id r) \<le> name_total (demand_rows d cart) (row_item_name r)"
proof -
  from r obtain mi i oi where
    i: "i \<in> set (inventory d)" "mi_inventory_id mi = inventory_id i" and
    eq: "r = demand_row mi i oi"
    unfolding demand_rows_iff by blast
  from eq i(2) have id: "row_inventory_id r = inventory_id i" and name: "row_item_name r = item_name i"
    by (simp_all add: demand_row_def)
  let ?xs = "map (\<lambda>i'. item_demand d cart (inventory_id i'))
               (filter (\<lambda>i'. item_name i' = item_name i) (inventory d))"
  have "\<forall>y\<in>set ?xs. 0 \<le> y"
    using item_demand_nonneg [OF nn] by auto
  moreover have "item_demand d cart (inventory_id i) \<in> set ?xs"
    using i(1) by auto
  ultimately have "item_demand d cart (inventory_id i) \<le> sum_list ?xs"
    by (rule member_le_sum_list_int)
  then show ?thesis
    by (simp add: name_total_item_demand id name)
qed

section \<open>Facts about the lane and about placeOrder\<close>

lemma sort_Nil_iff: "sort xs = [] \<longleftrightarrow> xs = []"
  by (metis length_sort length_0_conv)

lemma sort_Cons_least:
  assumes "sort xs = x # ys"
  shows "x \<in> set xs \<and> (\<forall>y\<in>set xs. x \<le> (y::int))"
proof -
  have "sorted (x # ys)" using assms sorted_sort [of xs] by simp
  moreover have "set xs = set (x # ys)" using assms set_sort [of "\<lambda>x. x" xs] by simp
  ultimately show ?thesis by auto
qed

lemma first_id_None_iff:
  "first_id st d = None \<longleftrightarrow> (\<forall>ord\<in>set (orders d). order_status ord \<noteq> st)"
proof -
  have "first_id st d = None \<longleftrightarrow>
          sort (map order_id (filter (\<lambda>ord. order_status ord = st) (orders d))) = []"
    by (simp add: first_id_def split: list.splits)
  also have "\<dots> \<longleftrightarrow> (\<forall>ord\<in>set (orders d). order_status ord \<noteq> st)"
    by (simp add: sort_Nil_iff filter_empty_conv)
  finally show ?thesis .
qed

lemma first_id_Some_iff:
  "first_id st d = Some x \<longleftrightarrow>
     (\<exists>ord\<in>set (orders d). order_status ord = st \<and> order_id ord = x) \<and>
     (\<forall>ord\<in>set (orders d). order_status ord = st \<longrightarrow> x \<le> order_id ord)"
proof
  assume "first_id st d = Some x"
  then obtain ys where
    "sort (map order_id (filter (\<lambda>ord. order_status ord = st) (orders d))) = x # ys"
    by (auto simp: first_id_def split: list.splits)
  from sort_Cons_least [OF this] show
    "(\<exists>ord\<in>set (orders d). order_status ord = st \<and> order_id ord = x) \<and>
     (\<forall>ord\<in>set (orders d). order_status ord = st \<longrightarrow> x \<le> order_id ord)"
    by auto
next
  assume a: "(\<exists>ord\<in>set (orders d). order_status ord = st \<and> order_id ord = x) \<and>
     (\<forall>ord\<in>set (orders d). order_status ord = st \<longrightarrow> x \<le> order_id ord)"
  let ?ids = "map order_id (filter (\<lambda>ord. order_status ord = st) (orders d))"
  from a have "?ids \<noteq> []" by (auto simp: filter_empty_conv)
  then obtain z zs where s: "sort ?ids = z # zs"
    by (cases "sort ?ids") (simp_all add: sort_Nil_iff)
  from sort_Cons_least [OF s] have "z \<in> set ?ids" "\<forall>y\<in>set ?ids. z \<le> y" by simp_all
  with a have "z = x" by force
  with s show "first_id st d = Some x" by (simp add: first_id_def)
qed

lemma pk_same_row:
  "distinct (map order_id xs) \<Longrightarrow> a \<in> set xs \<Longrightarrow> b \<in> set xs \<Longrightarrow>
     order_id a = order_id b \<Longrightarrow> a = b"
  by (meson distinct_map inj_onD)

lemma building_order_row:
  assumes "distinct (map order_id (orders d))" "ord \<in> set (orders d)"
  shows "Some (order_id ord) = building_order d \<longleftrightarrow> finishes d ord"
proof
  assume "Some (order_id ord) = building_order d"
  then have f: "first_id building d = Some (order_id ord)" by (simp add: building_order_def)
  then obtain b where b: "b \<in> set (orders d)" "order_status b = building" "order_id b = order_id ord"
    unfolding first_id_Some_iff by blast
  with assms have "b = ord" by (auto intro: pk_same_row)
  with b f show "finishes d ord"
    unfolding first_id_Some_iff finishes_def by blast
next
  assume "finishes d ord"
  with assms(2) have "first_id building d = Some (order_id ord)"
    unfolding first_id_Some_iff finishes_def by blast
  then show "Some (order_id ord) = building_order d" by (simp add: building_order_def)
qed

lemma next_order_row:
  assumes "distinct (map order_id (orders d))" "ord \<in> set (orders d)"
  shows "Some (order_id ord) = next_order d \<longleftrightarrow> promoted d ord"
proof
  assume "Some (order_id ord) = next_order d"
  then have f: "first_id waiting d = Some (order_id ord)" by (simp add: next_order_def)
  then obtain b where b: "b \<in> set (orders d)" "order_status b = waiting" "order_id b = order_id ord"
    unfolding first_id_Some_iff by blast
  with assms have "b = ord" by (auto intro: pk_same_row)
  with b f show "promoted d ord"
    unfolding first_id_Some_iff promoted_def by blast
next
  assume "promoted d ord"
  with assms(2) have "first_id waiting d = Some (order_id ord)"
    unfolding first_id_Some_iff promoted_def by blast
  then show "Some (order_id ord) = next_order d" by (simp add: next_order_def)
qed

lemma update_status_row:
  assumes "distinct (map order_id (orders d))" "ord \<in> set (orders d)"
  shows "update_status d ord =
           (if finishes d ord then ord \<lparr> order_status := complete \<rparr>
            else if promoted d ord then ord \<lparr> order_status := building \<rparr>
            else ord)"
  by (simp add: update_status_def building_order_row [OF assms] next_order_row [OF assms])

lemma update_status_id [simp]: "order_id (update_status d ord) = order_id ord"
  by (simp add: update_status_def)

lemma kitchenNext_ids: "map order_id (orders (kitchenNext d)) = map order_id (orders d)"
  by (simp add: kitchenNext_def comp_def)

lemma length_filter_le_one:
  "length (filter P xs) \<le> 1 \<Longrightarrow> a \<in> set xs \<Longrightarrow> b \<in> set xs \<Longrightarrow> P a \<Longrightarrow> P b \<Longrightarrow> a = b"
proof -
  assume l: "length (filter P xs) \<le> 1" and "a \<in> set xs" "b \<in> set xs" "P a" "P b"
  then have "a \<in> set (filter P xs)" "b \<in> set (filter P xs)" by simp_all
  with l show "a = b" by (cases "filter P xs") auto
qed

lemma length_filter_key:
  "distinct (map f xs) \<Longrightarrow> length (filter (\<lambda>x. f x = k) xs) \<le> 1"
  by (induction xs) (auto simp: filter_empty_conv image_iff intro: le_SucI)

lemma length_filter_mono:
  "(\<And>x. x \<in> set xs \<Longrightarrow> P x \<Longrightarrow> Q x) \<Longrightarrow> length (filter P xs) \<le> length (filter Q xs)"
  by (induction xs) (auto intro: le_SucI)

lemma promoted_le_one:
  assumes "distinct (map order_id (orders d))"
  shows "length (filter (promoted d) (orders d)) \<le> 1"
proof (cases "next_order d")
  case None
  then have "\<And>ord. ord \<in> set (orders d) \<Longrightarrow> \<not> promoted d ord"
    using next_order_row [OF assms] by (metis option.distinct(1))
  then have "filter (promoted d) (orders d) = []"
    by (simp add: filter_empty_conv)
  then show ?thesis by simp
next
  case (Some n)
  have "length (filter (promoted d) (orders d)) \<le> length (filter (\<lambda>ord. order_id ord = n) (orders d))"
  proof (rule length_filter_mono)
    fix ord assume "ord \<in> set (orders d)" "promoted d ord"
    with next_order_row [OF assms] Some show "order_id ord = n" by (metis option.inject)
  qed
  also have "\<dots> \<le> 1" using assms by (rule length_filter_key)
  finally show ?thesis .
qed

lemma kitchenNext_lane:
  assumes pk: "distinct (map order_id (orders d))" and ok: "lane_ok d"
  shows "lane_ok (kitchenNext d)"
proof -
  let ?B = "\<lambda>ord. order_status ord = building"
  have "length (filter ?B (map (update_status d) (orders d))) =
          length (filter (\<lambda>ord. ?B (update_status d ord)) (orders d))"
    by (simp add: filter_map comp_def)
  also have "\<dots> \<le> length (filter (promoted d) (orders d))"
  proof (rule length_filter_mono)
    fix ord assume ord: "ord \<in> set (orders d)" and b: "?B (update_status d ord)"
    show "promoted d ord"
    proof (rule ccontr)
      assume np: "\<not> promoted d ord"
      with b ord have nf: "\<not> finishes d ord" and s: "order_status ord = building"
        by (auto simp: update_status_row [OF pk ord] split: if_splits)
      have "\<forall>b\<in>set (orders d). order_status b = building \<longrightarrow> b = ord"
        using ok ord s unfolding lane_ok_def by (blast intro: length_filter_le_one)
      with s have "finishes d ord" by (auto simp: finishes_def)
      with nf show False by simp
    qed
  qed
  also have "\<dots> \<le> 1" using pk by (rule promoted_le_one)
  finally show ?thesis by (simp add: lane_ok_def kitchenNext_def)
qed

lemma handle_Answered [simp]: "handle p now req (Answered r) d = (r, d)"
  by (simp add: handle.simps)

lemma handle_Adding_lines:
  "handle p now req (Adding_lines orderID row rest lines) d =
     (Status_201 (''Order placed successfully, your number is: '' @ toString orderID),
      d \<lparr> orders := orders d @ [row],
          order_menu := order_menu d @ lines @ lines_of orderID rest \<rparr>)"
proof (induction rest arbitrary: lines)
  case Nil
  show ?case
    by (subst handle.simps) (simp add: lines_of_def)
next
  case (Cons selectedItem rest)
  show ?case
    by (subst handle.simps) (simp add: Cons.IH lines_of_def)
qed

lemma handle_Inserting:
  "handle p now req (Inserting checkBuilding) d =
     (if \<not> int4 (emID req) then (Status_500, d)
      else if orders_order_id_seq d + 1 \<in> set (map order_id (orders d))
      then (Status_500, d \<lparr> orders_order_id_seq := orders_order_id_seq d + 1 \<rparr>)
      else (Status_201 (''Order placed successfully, your number is: '' @
                          toString (orders_order_id_seq d + 1)),
            d \<lparr> orders := orders d @
                  [\<lparr> order_id = orders_order_id_seq d + 1,
                     employee_id = emID req,
                     order_time = now,
                     order_total = req_total req,
                     order_status = (if length checkBuilding > 0 then waiting else building) \<rparr>],
                order_menu := order_menu d @ lines_of (orders_order_id_seq d + 1) (itemAmount req),
                orders_order_id_seq := orders_order_id_seq d + 1 \<rparr>))"
  by (subst handle.simps) (simp add: Let_def handle_Adding_lines)

lemma handle_Selecting:
  "handle p now req Selecting d =
     handle p now req (Inserting (filter (\<lambda>ord. order_status ord = building) (orders d))) d"
  by (subst handle.simps) simp

lemma placeOrder_eq:
  "placeOrder p d now req =
     (case checkSufficientIngredients p d (itemAmount req) of
        Inl e \<Rightarrow> (Status_500, d)
      | Inr (Low second) \<Rightarrow> (Status_400 (low_stock_alert second), d)
      | Inr (NotLow ingredients) \<Rightarrow>
          if \<not> int4 (emID req) then (Status_500, d)
          else if orders_order_id_seq d + 1 \<in> set (map order_id (orders d))
          then (Status_500, d \<lparr> orders_order_id_seq := orders_order_id_seq d + 1 \<rparr>)
          else (Status_201 (''Order placed successfully, your number is: '' @
                              toString (orders_order_id_seq d + 1)),
                d \<lparr> orders := orders d @
                      [\<lparr> order_id = orders_order_id_seq d + 1,
                         employee_id = emID req,
                         order_time = now,
                         order_total = req_total req,
                         order_status = (if \<exists>ord\<in>set (orders d). order_status ord = building
                                         then waiting else building) \<rparr>],
                    order_menu := order_menu d @ lines_of (orders_order_id_seq d + 1) (itemAmount req),
                    orders_order_id_seq := orders_order_id_seq d + 1 \<rparr>))"
proof -
  have s: "handle p now req Selecting d =
     (if \<not> int4 (emID req) then (Status_500, d)
          else if orders_order_id_seq d + 1 \<in> set (map order_id (orders d))
          then (Status_500, d \<lparr> orders_order_id_seq := orders_order_id_seq d + 1 \<rparr>)
          else (Status_201 (''Order placed successfully, your number is: '' @
                              toString (orders_order_id_seq d + 1)),
                d \<lparr> orders := orders d @
                      [\<lparr> order_id = orders_order_id_seq d + 1,
                         employee_id = emID req,
                         order_time = now,
                         order_total = req_total req,
                         order_status = (if \<exists>ord\<in>set (orders d). order_status ord = building
                                         then waiting else building) \<rparr>],
                    order_menu := order_menu d @ lines_of (orders_order_id_seq d + 1) (itemAmount req),
                    orders_order_id_seq := orders_order_id_seq d + 1 \<rparr>))"
    by (simp add: handle_Selecting handle_Inserting filter_empty_conv)
  show ?thesis
    unfolding placeOrder_def
    by (subst handle.simps) (simp add: s split: sum.splits check_result.splits)
qed

lemma placeOrder_step_frame:
  "inventory (snd (placeOrder_step p now req st d)) = inventory d \<and>
   menu (snd (placeOrder_step p now req st d)) = menu d \<and>
   menu_ingredients (snd (placeOrder_step p now req st d)) = menu_ingredients d"
proof (cases st)
  case (Adding_lines orderID row rest lines)
  then show ?thesis by (cases rest) simp_all
qed (auto simp: Let_def split: sum.splits check_result.splits)

lemma placeOrder_201:
  assumes "placeOrder p d now req = (Status_201 msg, d')"
  shows "orders_order_id_seq d + 1 \<notin> set (map order_id (orders d)) \<and>
         (\<exists>bd. checkSufficientIngredients p d (itemAmount req) = Inr (NotLow bd)) \<and>
         d' = d \<lparr> orders := orders d @
                   [\<lparr> order_id = orders_order_id_seq d + 1,
                      employee_id = emID req,
                      order_time = now,
                      order_total = req_total req,
                      order_status = (if \<exists>ord\<in>set (orders d). order_status ord = building
                                      then waiting else building) \<rparr>],
                 order_menu := order_menu d @ lines_of (orders_order_id_seq d + 1) (itemAmount req),
                 orders_order_id_seq := orders_order_id_seq d + 1 \<rparr>"
  using assms
  by (auto simp: placeOrder_eq split: sum.splits check_result.splits if_splits)

lemma placeOrder_not_201:
  assumes "\<forall>msg d'. placeOrder p d now req \<noteq> (Status_201 msg, d')"
  shows "orders (snd (placeOrder p d now req)) = orders d \<and>
         order_menu (snd (placeOrder p d now req)) = order_menu d"
  using assms
  by (auto simp: placeOrder_eq split: sum.splits check_result.splits if_splits)

lemma placeOrder_sufficient:
  assumes "checkSufficientIngredients p d (itemAmount req) = Inr (NotLow bd)"
    and "int4 (emID req)"
    and "orders_order_id_seq d + 1 \<notin> set (map order_id (orders d))"
  shows "\<exists>msg d'. placeOrder p d now req = (Status_201 msg, d')"
  using assms by (simp add: placeOrder_eq)

lemma placeOrder_frame:
  "inventory (snd (placeOrder p d now req)) = inventory d \<and>
   menu (snd (placeOrder p d now req)) = menu d \<and>
   menu_ingredients (snd (placeOrder p d now req)) = menu_ingredients d"
  by (auto simp: placeOrder_eq split: sum.splits check_result.splits if_splits)

lemma placeOrder_lane:
  assumes pk: "distinct (map order_id (orders d))" and ok: "lane_ok d"
  shows "distinct (map order_id (orders (snd (placeOrder p d now req)))) \<and>
         lane_ok (snd (placeOrder p d now req))"
proof (cases "\<exists>msg d'. placeOrder p d now req = (Status_201 msg, d')")
  case True
  then obtain msg d' where p: "placeOrder p d now req = (Status_201 msg, d')" by blast
  from placeOrder_201 [OF p] have
    fresh: "orders_order_id_seq d + 1 \<notin> set (map order_id (orders d))" and
    o: "orders d' = orders d @
                   [\<lparr> order_id = orders_order_id_seq d + 1,
                      employee_id = emID req,
                      order_time = now,
                      order_total = req_total req,
                      order_status = (if \<exists>ord\<in>set (orders d). order_status ord = building
                                      then waiting else building) \<rparr>]"
    by simp_all
  have "distinct (map order_id (orders d'))"
    using pk fresh by (simp add: o)
  moreover have "lane_ok d'"
  proof (cases "\<exists>ord\<in>set (orders d). order_status ord = building")
    case True
    with ok show ?thesis by (simp add: lane_ok_def o)
  next
    case False
    then have "filter (\<lambda>ord. order_status ord = building) (orders d) = []"
      by (simp add: filter_empty_conv)
    with False show ?thesis by (simp add: lane_ok_def o)
  qed
  ultimately show ?thesis by (simp add: p)
next
  case False
  then have "orders (snd (placeOrder p d now req)) = orders d"
    using placeOrder_not_201 [of p d now req] by blast
  with pk ok show ?thesis by (simp add: lane_ok_def)
qed

lemma in_turn_lane:
  "distinct (map order_id (orders d)) \<Longrightarrow> lane_ok d \<Longrightarrow>
     distinct (map order_id (orders (in_turn p ops d))) \<and> lane_ok (in_turn p ops d)"
proof (induction ops arbitrary: d)
  case Nil
  then show ?case by simp
next
  case (Cons op ops)
  show ?case
  proof (cases op)
    case (Place now req)
    from placeOrder_lane [OF Cons.prems, of p now req]
      Cons.IH [of "snd (placeOrder p d now req)"]
    show ?thesis by (simp add: Place)
  next
    case Advance
    from Cons.prems have "distinct (map order_id (orders (kitchenNext d)))"
      by (simp add: kitchenNext_ids)
    with kitchenNext_lane [OF Cons.prems] Cons.IH [of "kitchenNext d"]
    show ?thesis by (simp add: Advance)
  qed
qed

lemma zip_map_self: "zip xs (map f xs) = map (\<lambda>x. (x, f x)) xs"
  by (induction xs) simp_all


lemma interleave_frame:
  "inventory (snd (interleave p events calls d)) = inventory d \<and>
   menu_ingredients (snd (interleave p events calls d)) = menu_ingredients d"
proof (induction events arbitrary: calls d)
  case Nil
  show ?case by simp
next
  case (Cons event events)
  show ?case
  proof (cases event)
    case (Step i)
    show ?thesis
    proof (cases "i < length calls")
      case True
      obtain now req st where c: "calls ! i = (now, req, st)"
        by (metis surj_pair)
      obtain st' d' where s: "placeOrder_step p now req st d = (st', d')"
        by (metis surj_pair)
      from placeOrder_step_frame [of p now req st d] s
      have "inventory d' = inventory d" "menu_ingredients d' = menu_ingredients d"
        by simp_all
      with Cons.IH [of "calls [i := (now, req, st')]" d'] True show ?thesis
        by (simp add: Step c s)
    next
      case False
      with Cons.IH [of calls d] show ?thesis by (simp add: Step)
    qed
  next
    case Next
    from Cons.IH [of calls "kitchenNext d"] show ?thesis
      by (simp add: Next kitchenNext_def)
  qed
qed

text \<open>
  The check for the empty cart is the client's: \<^verbatim>\<open>placeOrder\<close> of the cart context
  throws before it sends a request, whatever the store holds.
\<close>

lemma client_rejects_empty_cart:
  "CartContext_placeOrder p d now [] total' userId =
     (Inl (Error ''Your order is empty. Please add items first.''), d)"
  by (simp add: CartContext_placeOrder_def)

text \<open>
  Calls that are answered one after the other keep the lane: from a state with at most
  one order building (order ids being the key of the table) at most one order is
  building after them, an order that is inserted is waiting exactly when some order is
  building, and \<open>kitchenNext\<close> turns at most one waiting order, one with the least id,
  into a building one.
\<close>

lemma calls_in_turn_keep_lane:
  assumes "distinct (map order_id (orders d))"
    and "length (filter (\<lambda>ord. order_status ord = building) (orders d)) \<le> 1"
  shows "length (filter (\<lambda>ord. order_status ord = building) (orders (in_turn p ops d))) \<le> 1 \<and>
    (\<forall>now req msg d'. placeOrder p (in_turn p ops d) now req = (Status_201 msg, d') \<longrightarrow>
       (\<exists>new. orders d' = orders (in_turn p ops d) @ [new] \<and>
          order_status new =
            (if \<exists>ord\<in>set (orders (in_turn p ops d)). order_status ord = building
             then waiting else building))) \<and>
    length (filter (\<lambda>(ord, ord'). order_status ord = waiting \<and> order_status ord' = building)
              (zip (orders (in_turn p ops d)) (orders (kitchenNext (in_turn p ops d))))) \<le> 1 \<and>
    (\<forall>(ord, ord')\<in>set (zip (orders (in_turn p ops d)) (orders (kitchenNext (in_turn p ops d)))).
       order_status ord = waiting \<and> order_status ord' = building \<longrightarrow>
       (\<forall>w\<in>set (orders (in_turn p ops d)). order_status w = waiting \<longrightarrow> order_id ord \<le> order_id w))"
proof -
  let ?s = "in_turn p ops d"
  from assms have inv: "distinct (map order_id (orders ?s))" "lane_ok ?s"
    using in_turn_lane [of d p ops] by (simp_all add: lane_ok_def)
  have a: "length (filter (\<lambda>ord. order_status ord = building) (orders ?s)) \<le> 1"
    using inv(2) by (simp add: lane_ok_def)
  have b: "\<forall>now req msg d'. placeOrder p ?s now req = (Status_201 msg, d') \<longrightarrow>
       (\<exists>new. orders d' = orders ?s @ [new] \<and>
          order_status new =
            (if \<exists>ord\<in>set (orders ?s). order_status ord = building then waiting else building))"
  proof (intro allI impI)
    fix now req msg d'
    assume "placeOrder p ?s now req = (Status_201 msg, d')"
    from placeOrder_201 [OF this] show "\<exists>new. orders d' = orders ?s @ [new] \<and>
          order_status new =
            (if \<exists>ord\<in>set (orders ?s). order_status ord = building then waiting else building)"
      by simp
  qed
  have z: "zip (orders ?s) (orders (kitchenNext ?s)) =
             map (\<lambda>ord. (ord, update_status ?s ord)) (orders ?s)"
    by (simp add: kitchenNext_def zip_map_self)
  have up: "order_status ord = waiting \<and> order_status (update_status ?s ord) = building \<longleftrightarrow>
              promoted ?s ord" if "ord \<in> set (orders ?s)" for ord
    using that by (auto simp: update_status_row [OF inv(1) that] promoted_def finishes_def)
  have "length (filter (\<lambda>(ord, ord'). order_status ord = waiting \<and> order_status ord' = building)
              (zip (orders ?s) (orders (kitchenNext ?s)))) =
        length (filter (\<lambda>ord. order_status ord = waiting \<and>
                   order_status (update_status ?s ord) = building) (orders ?s))"
    by (simp add: z filter_map comp_def)
  also have "\<dots> \<le> length (filter (promoted ?s) (orders ?s))"
    by (rule length_filter_mono) (simp add: up)
  also have "\<dots> \<le> 1"
    using inv(1) by (rule promoted_le_one)
  finally have c: "length (filter (\<lambda>(ord, ord'). order_status ord = waiting \<and> order_status ord' = building)
              (zip (orders ?s) (orders (kitchenNext ?s)))) \<le> 1" .
  have e: "\<forall>(ord, ord')\<in>set (zip (orders ?s) (orders (kitchenNext ?s))).
       order_status ord = waiting \<and> order_status ord' = building \<longrightarrow>
       (\<forall>w\<in>set (orders ?s). order_status w = waiting \<longrightarrow> order_id ord \<le> order_id w)"
    using up by (auto simp: z promoted_def)
  from a b c e show ?thesis by (intro conjI)
qed


text \<open>
  The rows of an order are right also when the call is interleaved with others: what a
  call holds in its transaction does not depend on the state of the store, and the
  commit appends it.
\<close>

lemma placing_ok_step:
  "placing_ok req st \<Longrightarrow> placing_ok req (fst (placeOrder_step p now req st d))"
proof (cases st)
  case (Adding_lines orderID row rest lines)
  assume "placing_ok req st"
  with Adding_lines show ?thesis
    by (cases rest) (simp_all add: lines_of_def)
qed (auto simp: Let_def lines_of_def split: sum.splits check_result.splits)

lemma placing_ok_commit:
  assumes "placing_ok req st" and "st \<noteq> Answered (Status_201 msg)"
    and "placeOrder_step p now req st d = (Answered (Status_201 msg), d')"
  shows "\<exists>new. orders d' = orders d @ [new] \<and>
           employee_id new = emID req \<and> order_total new = req_total req \<and>
           order_menu d' = order_menu d @ lines_of (order_id new) (itemAmount req)"
proof (cases st)
  case (Adding_lines orderID row rest lines)
  with assms show ?thesis
    by (cases rest) (auto simp: lines_of_def)
next
  case Checking
  with assms(3) show ?thesis
    by (auto split: sum.splits check_result.splits)
next
  case Selecting
  with assms(3) show ?thesis by simp
next
  case (Inserting checkBuilding)
  with assms(3) show ?thesis
    by (auto simp: Let_def split: if_splits)
next
  case (Answered r)
  with assms(2,3) show ?thesis by simp
qed
section \<open>Facts about the kitchen view\<close>

























section \<open>The claims\<close>

subsection \<open>C1: a sufficient cart gets the per-item breakdown\<close>

text \<open>
  C1, as amended. For every cart whose query the store answers (every id and every
  quantity of the cart, and every product of a recipe quantity and a quantity ordered
  on a joined row, is in the range of a 32-bit integer), and in whatever order the
  store returns the rows: if no row of the query is short, that is, for every
  ingredient the cart uses the demand totalled under its \<^emph>\<open>name\<close> (recipe quantity
  times quantity ordered, summed over all rows with that \<open>item_name\<close>) is at most the
  stock level of the row, then \<open>checkSufficientIngredients\<close> returns a result that is
  not low. Its breakdown has, for each cart line, an entry made from a cart line of the
  same id that lists each recipe ingredient of the line with the amount
  \<open>quantity_needed\<close> times the quantity of the line, and it lists nothing else than
  such ingredients. Equality of demand and stock is sufficient.
\<close>

theorem sufficient_cart_breakdown:
  assumes "reorders p" and "query_ok d cart"
    and "\<forall>r\<in>set (demand_rows d cart).
           name_total (demand_rows d cart) (row_item_name r) \<le> row_stock_level r"
  shows "\<exists>bd. checkSufficientIngredients p d cart = Inr (NotLow bd) \<and>
           (\<forall>sel\<in>set cart. \<exists>it\<in>set bd.
              (\<exists>sel'\<in>set cart. sel_id sel' = sel_id sel \<and> entry_name it = sel_name sel' \<and>
                 entry_amount it = sel_quantity sel') \<and>
              (\<forall>mi\<in>set (menu_ingredients d). \<forall>i\<in>set (inventory d).
                 mi_menu_item_id mi = sel_id sel \<and> mi_inventory_id mi = inventory_id i \<longrightarrow>
                 \<lparr> ingredientName = item_name i, amount = quantity_needed mi * sel_quantity sel \<rparr>
                   \<in> set (entry_ingredient it))) \<and>
           (\<forall>it\<in>set bd. \<forall>g\<in>set (entry_ingredient it).
              \<exists>sel\<in>set cart. \<exists>mi\<in>set (menu_ingredients d). \<exists>i\<in>set (inventory d).
                 mi_menu_item_id mi = sel_id sel \<and> mi_inventory_id mi = inventory_id i \<and>
                 g = \<lparr> ingredientName = item_name i, amount = quantity_needed mi * sel_quantity sel \<rparr>)"
proof -
  let ?rows = "p (demand_rows d cart)"
  let ?bd = "breakdown cart ?rows"
  have rows: "set ?rows = set (demand_rows d cart)"
    using assms(1) by (rule reorders_set)
  from assms(3) have "\<forall>r\<in>set (demand_rows d cart). \<not> is_low (demand_rows d cart) r"
    by (auto simp: is_low_def)
  with assms(1,2) have c: "checkSufficientIngredients p d cart = Inr (NotLow ?bd)"
    by (rule check_not_low)
  have a: "\<exists>it\<in>set ?bd.
              (\<exists>sel'\<in>set cart. sel_id sel' = sel_id sel \<and> entry_name it = sel_name sel' \<and>
                 entry_amount it = sel_quantity sel') \<and>
              (\<forall>mi\<in>set (menu_ingredients d). \<forall>i\<in>set (inventory d).
                 mi_menu_item_id mi = sel_id sel \<and> mi_inventory_id mi = inventory_id i \<longrightarrow>
                 \<lparr> ingredientName = item_name i, amount = quantity_needed mi * sel_quantity sel \<rparr>
                   \<in> set (entry_ingredient it))" if sel: "sel \<in> set cart" for sel
  proof -
    from breakdown_entry [OF sel, of ?rows] obtain it where
      it: "it \<in> set ?bd"
        "\<exists>sel'\<in>set cart. sel_id sel' = sel_id sel \<and> entry_name it = sel_name sel' \<and>
              entry_amount it = sel_quantity sel'"
        "entry_ingredient it = map ingredient_of (filter (\<lambda>r. row_menu_item_id r = sel_id sel) ?rows)"
      by blast
    have "\<lparr> ingredientName = item_name i, amount = quantity_needed mi * sel_quantity sel \<rparr>
            \<in> set (entry_ingredient it)"
      if "mi \<in> set (menu_ingredients d)" "i \<in> set (inventory d)"
         "mi_menu_item_id mi = sel_id sel" "mi_inventory_id mi = inventory_id i" for mi i
    proof -
      have "demand_row mi i sel \<in> set (demand_rows d cart)"
        using that sel by (auto simp: demand_rows_iff)
      then have "demand_row mi i sel \<in> set ?rows"
        by (simp add: rows)
      moreover have "row_menu_item_id (demand_row mi i sel) = sel_id sel"
        using that by (simp add: demand_row_def)
      ultimately have "demand_row mi i sel \<in> set (filter (\<lambda>r. row_menu_item_id r = sel_id sel) ?rows)"
        by simp
      then have "ingredient_of (demand_row mi i sel) \<in> set (entry_ingredient it)"
        unfolding it(3) set_map by (rule imageI)
      then show ?thesis
        by (simp add: ingredient_of_def demand_row_def)
    qed
    with it(1,2) show ?thesis by blast
  qed
  have b: "\<exists>sel\<in>set cart. \<exists>mi\<in>set (menu_ingredients d). \<exists>i\<in>set (inventory d).
                 mi_menu_item_id mi = sel_id sel \<and> mi_inventory_id mi = inventory_id i \<and>
                 g = \<lparr> ingredientName = item_name i, amount = quantity_needed mi * sel_quantity sel \<rparr>"
    if "it \<in> set ?bd" "g \<in> set (entry_ingredient it)" for it g
  proof -
    from breakdown_sound [OF that] obtain r where
      r: "r \<in> set ?rows" "g = ingredient_of r" by blast
    from r(1) have "r \<in> set (demand_rows d cart)"
      by (simp add: rows)
    then obtain mi i oi where
      "mi \<in> set (menu_ingredients d)" "i \<in> set (inventory d)" "oi \<in> set cart"
      "mi_inventory_id mi = inventory_id i" "mi_menu_item_id mi = sel_id oi" "r = demand_row mi i oi"
      unfolding demand_rows_iff by blast
    with r(2) show ?thesis
      by (auto simp: ingredient_of_def demand_row_def)
  qed
  from c a b show ?thesis by blast
qed

theorem sufficient_cart_breakdown_witness:
  "query_ok scenario_A_db scenario_cart \<and>
   name_total (demand_rows scenario_A_db scenario_cart) ''Ingredient-Y'' = 4 \<and>
   map row_stock_level (demand_rows scenario_A_db scenario_cart) = [5] \<and>
   checkSufficientIngredients (\<lambda>rows. rows) scenario_A_db scenario_cart =
     Inr (NotLow [\<lparr> entry_name = ''Entree-X'', entry_amount = 2,
                     entry_ingredient = [\<lparr> ingredientName = ''Ingredient-Y'', amount = 4 \<rparr>] \<rparr>])"
proof -
  have h0: "reorders (\<lambda>rows :: ingredient_row list. rows)"
    by (simp add: reorders_def)
  have h1: "query_ok scenario_A_db scenario_cart"
    by code_simp
  have h2: "\<forall>r\<in>set (demand_rows scenario_A_db scenario_cart).
             name_total (demand_rows scenario_A_db scenario_cart) (row_item_name r)
               \<le> row_stock_level r"
    by code_simp
  have c: "query_ok scenario_A_db scenario_cart \<and>
     name_total (demand_rows scenario_A_db scenario_cart) ''Ingredient-Y'' = 4 \<and>
     map row_stock_level (demand_rows scenario_A_db scenario_cart) = [5] \<and>
     checkSufficientIngredients (\<lambda>rows. rows) scenario_A_db scenario_cart =
       Inr (NotLow [\<lparr> entry_name = ''Entree-X'', entry_amount = 2,
                       entry_ingredient = [\<lparr> ingredientName = ''Ingredient-Y'', amount = 4 \<rparr>] \<rparr>])"
    by code_simp
  from conjunct2 [OF conjI [OF sufficient_cart_breakdown [OF h0 h1 h2] c]] show ?thesis .
qed

text \<open>
  C1 as stated takes the demand per inventory item, and every cart. With two inventory
  rows of one name, each row covers the demand on it (3 of 5), and the result is low
  all the same, in either order of the two rows. And a cart with a quantity of three
  thousand million, of an item without a recipe, demands nothing of any inventory row:
  the store refuses the query, and the check throws instead of returning a result.
\<close>

theorem per_item_sufficient_but_low:
  "map inventory_id (inventory shared_name_db) = [1, 2] \<and>
   map stock_level (inventory shared_name_db) = [5, 5] \<and>
   item_demand shared_name_db shared_name_cart 1 = 3 \<and>
   item_demand shared_name_db shared_name_cart 2 = 3 \<and>
   checkSufficientIngredients (\<lambda>rows. rows) shared_name_db shared_name_cart =
     Inr (Low \<lparr> low_ingredientName = ''rice'', currStock = 5, neededStock = 6,
                 menuItemsUsing = [''bowl x1'', ''plate x1''] \<rparr>) \<and>
   checkSufficientIngredients rev shared_name_db shared_name_cart =
     Inr (Low \<lparr> low_ingredientName = ''rice'', currStock = 5, neededStock = 6,
                 menuItemsUsing = [''plate x1'', ''bowl x1''] \<rparr>) \<and>
   map inventory_id (inventory scenario_A_db) = [1] \<and>
   item_demand scenario_A_db unknown_item_cart 1 = 0 \<and>
   demand_rows scenario_A_db unknown_item_cart = [] \<and>
   checkSufficientIngredients (\<lambda>rows. rows) scenario_A_db unknown_item_cart = Inl DatabaseError"
  by code_simp

subsection \<open>C2: at most one order is building\<close>

text \<open>
  C2. Two calls of \<^verbatim>\<open>POST /api/placeOrder\<close> that overlap, on a state without orders: each
  reads the building orders before the other has committed its insert, finds none, and
  inserts its order as building. Both are answered 201, and two orders are building.
  The claim holds of calls that are answered one after the other
  (\<open>calls_in_turn_keep_lane\<close>); the handler does nothing to keep two calls apart.
\<close>

theorem overlapping_calls_both_building:
  "map order_status (orders scenario_A_db) = [] \<and>
   map (\<lambda>(now, order', st). st) (fst (interleave (\<lambda>rows. rows) turn_about two_calls scenario_A_db)) =
     [Answered (Status_201 ''Order placed successfully, your number is: 1''),
      Answered (Status_201 ''Order placed successfully, your number is: 2'')] \<and>
   map order_id (orders (snd (interleave (\<lambda>rows. rows) turn_about two_calls scenario_A_db))) =
     [1, 2] \<and>
   map order_status (orders (snd (interleave (\<lambda>rows. rows) turn_about two_calls scenario_A_db))) =
     [building, building]"
  by code_simp

subsection \<open>C3: one step of the lane\<close>




subsection \<open>C4: an order that cannot be covered is rejected and nothing is written\<close>

text \<open>
  C4, as amended. For every cart whose query the store answers (ids, quantities and
  products in the range of a 32-bit integer), with no negative quantity in the cart or
  in the recipes, and in whatever order the store returns the rows: if the cart uses
  at least one inventory row whose stock level is below the demand on that row (recipe
  quantity times quantity ordered, summed over the recipe entries and cart lines that
  refer to the row), then \<open>placeOrder\<close> answers 400 at its first step, and the text of
  the answer is \<^verbatim>\<open>Low Stock Alert: The ingredient N is being ordered in U, which uses
  total of T, and there is S available.\<close> where \<open>N\<close> is the name of a row of the query
  that is short, \<open>S\<close> its stock level, \<open>T\<close> the demand totalled under that name, and
  \<open>U\<close> the menu items of the rows with that name, each with its quantity, separated by
  commas. The state of the store after the call is the state before it: nothing is
  written to the orders or to the order lines. The client's \<open>placeOrder\<close> throws that
  text.
\<close>

theorem insufficient_order_rejected:
  assumes "reorders p" and "query_ok d cart"
    and "\<forall>mi\<in>set (menu_ingredients d). 0 \<le> quantity_needed mi"
    and "\<forall>oi\<in>set cart. 0 \<le> sel_quantity oi"
    and "\<exists>r\<in>set (demand_rows d cart). row_stock_level r < item_demand d cart (row_inventory_id r)"
  shows "\<exists>r\<in>set (demand_rows d cart).
           row_stock_level r < name_total (demand_rows d cart) (row_item_name r) \<and>
           set (name_uses (p (demand_rows d cart)) (row_item_name r)) =
             (\<lambda>u. menu_name u @ '' x'' @ toString (quantity u)) `
               {u \<in> set (demand_rows d cart). row_item_name u = row_item_name r} \<and>
           placeOrder_step p now \<lparr> itemAmount = cart, req_total = t, emID = e \<rparr> Checking d =
             (Answered (Status_400
                (''Low Stock Alert: The ingredient '' @ row_item_name r @
                 '' is being ordered in '' @
                 join '', '' (name_uses (p (demand_rows d cart)) (row_item_name r)) @
                 '', which uses total of '' @
                 toString (name_total (demand_rows d cart) (row_item_name r)) @
                 '', and there is '' @ toString (row_stock_level r) @ '' available.'')), d) \<and>
           placeOrder p d now \<lparr> itemAmount = cart, req_total = t, emID = e \<rparr> =
             (Status_400
                (''Low Stock Alert: The ingredient '' @ row_item_name r @
                 '' is being ordered in '' @
                 join '', '' (name_uses (p (demand_rows d cart)) (row_item_name r)) @
                 '', which uses total of '' @
                 toString (name_total (demand_rows d cart) (row_item_name r)) @
                 '', and there is '' @ toString (row_stock_level r) @ '' available.''), d) \<and>
           CartContext_placeOrder p d now cart t e =
             (Inl (Error
                (''Low Stock Alert: The ingredient '' @ row_item_name r @
                 '' is being ordered in '' @
                 join '', '' (name_uses (p (demand_rows d cart)) (row_item_name r)) @
                 '', which uses total of '' @
                 toString (name_total (demand_rows d cart) (row_item_name r)) @
                 '', and there is '' @ toString (row_stock_level r) @ '' available.'')), d)"
proof -
  let ?rows = "demand_rows d cart"
  from assms(5) obtain r0 where
    r0: "r0 \<in> set ?rows" "row_stock_level r0 < item_demand d cart (row_inventory_id r0)"
    by blast
  from row_demand_le_name_total [OF assms(3,4) r0(1)] r0(2)
  have "is_low ?rows r0"
    by (simp add: is_low_def)
  with r0(1) have "\<exists>r\<in>set ?rows. is_low ?rows r" ..
  from check_low [OF assms(1,2) this] obtain pre r post where
    r: "p ?rows = pre @ r # post" "is_low ?rows r" and
    c: "checkSufficientIngredients p d cart =
             Inr (Low \<lparr> low_ingredientName = row_item_name r,
                         currStock = row_stock_level r,
                         neededStock = name_total ?rows (row_item_name r),
                         menuItemsUsing = name_uses (p ?rows) (row_item_name r) \<rparr>)"
    by blast
  define text' where "text' =
     ''Low Stock Alert: The ingredient '' @ row_item_name r @
     '' is being ordered in '' @ join '', '' (name_uses (p ?rows) (row_item_name r)) @
     '', which uses total of '' @ toString (name_total ?rows (row_item_name r)) @
     '', and there is '' @ toString (row_stock_level r) @ '' available.''"
  have "r \<in> set (p ?rows)"
    by (simp add: r(1))
  then have in_rows: "r \<in> set ?rows"
    by (simp add: reorders_set [OF assms(1)])
  then have ne: "cart \<noteq> []"
    by (auto simp: demand_rows_iff)
  have short: "row_stock_level r < name_total ?rows (row_item_name r)"
    using r(2) by (simp add: is_low_def)
  have uses: "set (name_uses (p ?rows) (row_item_name r)) =
             (\<lambda>u. menu_name u @ '' x'' @ toString (quantity u)) `
               {u \<in> set ?rows. row_item_name u = row_item_name r}"
    by (auto simp: name_uses_def reorders_set [OF assms(1)])
  have s: "placeOrder_step p now \<lparr> itemAmount = cart, req_total = t, emID = e \<rparr> Checking d =
             (Answered (Status_400 text'), d)"
    by (simp add: c low_stock_alert_def text'_def)
  have h: "placeOrder p d now \<lparr> itemAmount = cart, req_total = t, emID = e \<rparr> =
             (Status_400 text', d)"
    by (simp add: placeOrder_eq c low_stock_alert_def text'_def)
  have "CartContext_placeOrder p d now cart t e = (Inl (Error text'), d)"
    using ne by (simp add: CartContext_placeOrder_def h)
  with in_rows short uses s h show ?thesis
    unfolding text'_def by blast
qed

theorem insufficient_order_rejected_witness:
  "map row_stock_level (demand_rows scenario_B_db scenario_cart) = [3] \<and>
   item_demand scenario_B_db scenario_cart 1 = 4 \<and>
   name_total (demand_rows scenario_B_db scenario_cart) ''Ingredient-Y'' = 4 \<and>
   placeOrder (\<lambda>rows. rows) scenario_B_db 1000 \<lparr> itemAmount = scenario_cart, req_total = 20, emID = 7 \<rparr> =
     (Status_400 ''Low Stock Alert: The ingredient Ingredient-Y is being ordered in Entree-X x2, which uses total of 4, and there is 3 available.'',
      scenario_B_db)"
proof -
  have h0: "reorders (\<lambda>rows :: ingredient_row list. rows)"
    by (simp add: reorders_def)
  have h1: "query_ok scenario_B_db scenario_cart"
    by code_simp
  have h2: "\<forall>mi\<in>set (menu_ingredients scenario_B_db). 0 \<le> quantity_needed mi"
    by code_simp
  have h3: "\<forall>oi\<in>set scenario_cart. 0 \<le> sel_quantity oi"
    by code_simp
  have h4: "\<exists>r\<in>set (demand_rows scenario_B_db scenario_cart).
              row_stock_level r < item_demand scenario_B_db scenario_cart (row_inventory_id r)"
    by code_simp
  have c: "map row_stock_level (demand_rows scenario_B_db scenario_cart) = [3] \<and>
     item_demand scenario_B_db scenario_cart 1 = 4 \<and>
     name_total (demand_rows scenario_B_db scenario_cart) ''Ingredient-Y'' = 4 \<and>
     placeOrder (\<lambda>rows. rows) scenario_B_db 1000 \<lparr> itemAmount = scenario_cart, req_total = 20, emID = 7 \<rparr> =
       (Status_400 ''Low Stock Alert: The ingredient Ingredient-Y is being ordered in Entree-X x2, which uses total of 4, and there is 3 available.'',
        scenario_B_db)"
    by code_simp
  from conjunct2 [OF conjI [OF insufficient_order_rejected [OF h0 h1 h2 h3 h4, of 1000 20 7] c]]
  show ?thesis .
qed

text \<open>
  C4 as stated speaks of every cart. Three thousand million of Entree-X are a demand
  of six thousand million on a stock of 5: the store refuses the query, and the answer
  is 500, without the shortage. And with a negative quantity on another line of the
  same ingredient name, the demand of 6 on a row with 5 in stock is not reported: the
  check finds nothing short, and the handler goes on to insert the order.
\<close>

theorem shortage_not_reported:
  "map stock_level (inventory scenario_A_db) = [5] \<and>
   item_demand scenario_A_db huge_cart 1 = 6000000000 \<and>
   placeOrder (\<lambda>rows. rows) scenario_A_db 1000 \<lparr> itemAmount = huge_cart, req_total = 20, emID = 7 \<rparr> =
     (Status_500, scenario_A_db) \<and>
   map stock_level (inventory shared_name_db) = [5, 5] \<and>
   item_demand shared_name_db negative_cart 1 = 6 \<and>
   item_demand shared_name_db negative_cart 2 = - 3 \<and>
   checkSufficientIngredients (\<lambda>rows. rows) shared_name_db negative_cart =
     Inr (NotLow [\<lparr> entry_name = ''bowl'', entry_amount = 2,
                     entry_ingredient = [\<lparr> ingredientName = ''rice'', amount = 6 \<rparr>] \<rparr>,
                  \<lparr> entry_name = ''plate'', entry_amount = - 1,
                     entry_ingredient = [\<lparr> ingredientName = ''rice'', amount = - 3 \<rparr>] \<rparr>]) \<and>
   placeOrder_step (\<lambda>rows. rows) 1000 \<lparr> itemAmount = negative_cart, req_total = 8, emID = 7 \<rparr>
       Checking shared_name_db =
     (Selecting, shared_name_db)"
  by code_simp

subsection \<open>C5: the kitchen view lists the recipe of every line\<close>




subsection \<open>C6: the first shortage in the order of the rows is the one reported\<close>

text \<open>
  C6, as amended. For every cart whose query the store answers (ids, quantities and
  products in the range of a 32-bit integer) and which has at least one row that is
  short (its stock level is below the demand totalled under its \<^emph>\<open>name\<close>), as it has
  whenever no quantity of the cart or of the recipes is negative and the cart uses an
  inventory row whose stock level is below the demand on that row,
  \<open>checkSufficientIngredients\<close> returns a low result, whatever the order in which the
  store returns the rows. The shortage reported is that of the first short row in that
  order: no row before it is short. The stock needed that is reported with a name is
  the demand totalled under the name, the same in every order.
\<close>

theorem first_shortage_reported:
  assumes "reorders p" and "query_ok d cart"
    and "(\<exists>r\<in>set (demand_rows d cart).
            row_stock_level r < name_total (demand_rows d cart) (row_item_name r)) \<or>
         (\<forall>mi\<in>set (menu_ingredients d). 0 \<le> quantity_needed mi) \<and>
         (\<forall>oi\<in>set cart. 0 \<le> sel_quantity oi) \<and>
         (\<exists>r\<in>set (demand_rows d cart).
            row_stock_level r < item_demand d cart (row_inventory_id r))"
  shows "\<exists>pre r post.
           p (demand_rows d cart) = pre @ r # post \<and>
           (\<forall>x\<in>set pre.
              \<not> row_stock_level x < name_total (demand_rows d cart) (row_item_name x)) \<and>
           row_stock_level r < name_total (demand_rows d cart) (row_item_name r) \<and>
           checkSufficientIngredients p d cart =
             Inr (Low \<lparr> low_ingredientName = row_item_name r,
                         currStock = row_stock_level r,
                         neededStock = name_total (demand_rows d cart) (row_item_name r),
                         menuItemsUsing = name_uses (p (demand_rows d cart)) (row_item_name r) \<rparr>)"
proof -
  have "\<exists>r\<in>set (demand_rows d cart). is_low (demand_rows d cart) r"
    using assms(3)
  proof
    assume "\<exists>r\<in>set (demand_rows d cart).
            row_stock_level r < name_total (demand_rows d cart) (row_item_name r)"
    then show ?thesis by (simp add: is_low_def)
  next
    assume a: "(\<forall>mi\<in>set (menu_ingredients d). 0 \<le> quantity_needed mi) \<and>
         (\<forall>oi\<in>set cart. 0 \<le> sel_quantity oi) \<and>
         (\<exists>r\<in>set (demand_rows d cart).
            row_stock_level r < item_demand d cart (row_inventory_id r))"
    then obtain r0 where
      r0: "r0 \<in> set (demand_rows d cart)"
        "row_stock_level r0 < item_demand d cart (row_inventory_id r0)"
      by blast
    from a have nn: "\<forall>mi\<in>set (menu_ingredients d). 0 \<le> quantity_needed mi"
      "\<forall>oi\<in>set cart. 0 \<le> sel_quantity oi"
      by simp_all
    from row_demand_le_name_total [OF nn r0(1)] r0(2)
    have "is_low (demand_rows d cart) r0"
      by (simp add: is_low_def)
    with r0(1) show ?thesis ..
  qed
  from check_low [OF assms(1,2) this] obtain pre r post where
    "p (demand_rows d cart) = pre @ r # post"
    "is_low (demand_rows d cart) r"
    "\<forall>x\<in>set pre. \<not> is_low (demand_rows d cart) x"
    "checkSufficientIngredients p d cart =
             Inr (Low \<lparr> low_ingredientName = row_item_name r,
                         currStock = row_stock_level r,
                         neededStock = name_total (demand_rows d cart) (row_item_name r),
                         menuItemsUsing = name_uses (p (demand_rows d cart)) (row_item_name r) \<rparr>)"
    by blast
  then have "p (demand_rows d cart) = pre @ r # post \<and>
           (\<forall>x\<in>set pre.
              \<not> row_stock_level x < name_total (demand_rows d cart) (row_item_name x)) \<and>
           row_stock_level r < name_total (demand_rows d cart) (row_item_name r) \<and>
           checkSufficientIngredients p d cart =
             Inr (Low \<lparr> low_ingredientName = row_item_name r,
                         currStock = row_stock_level r,
                         neededStock = name_total (demand_rows d cart) (row_item_name r),
                         menuItemsUsing = name_uses (p (demand_rows d cart)) (row_item_name r) \<rparr>)"
    by (simp add: is_low_def)
  then show ?thesis by blast
qed

theorem first_shortage_reported_witness:
  "map row_stock_level (demand_rows scenario_B_db scenario_cart) = [3] \<and>
   item_demand scenario_B_db scenario_cart 1 = 4 \<and>
   name_total (demand_rows scenario_B_db scenario_cart) ''Ingredient-Y'' = 4 \<and>
   checkSufficientIngredients (\<lambda>rows. rows) scenario_B_db scenario_cart =
     Inr (Low \<lparr> low_ingredientName = ''Ingredient-Y'', currStock = 3, neededStock = 4,
                 menuItemsUsing = [''Entree-X x2''] \<rparr>)"
proof -
  have h0: "reorders (\<lambda>rows :: ingredient_row list. rows)"
    by (simp add: reorders_def)
  have h1: "query_ok scenario_B_db scenario_cart"
    by code_simp
  have h2: "(\<forall>mi\<in>set (menu_ingredients scenario_B_db). 0 \<le> quantity_needed mi) \<and>
         (\<forall>oi\<in>set scenario_cart. 0 \<le> sel_quantity oi) \<and>
         (\<exists>r\<in>set (demand_rows scenario_B_db scenario_cart).
            row_stock_level r < item_demand scenario_B_db scenario_cart (row_inventory_id r))"
    by code_simp
  have c: "map row_stock_level (demand_rows scenario_B_db scenario_cart) = [3] \<and>
     item_demand scenario_B_db scenario_cart 1 = 4 \<and>
     name_total (demand_rows scenario_B_db scenario_cart) ''Ingredient-Y'' = 4 \<and>
     checkSufficientIngredients (\<lambda>rows. rows) scenario_B_db scenario_cart =
       Inr (Low \<lparr> low_ingredientName = ''Ingredient-Y'', currStock = 3, neededStock = 4,
                   menuItemsUsing = [''Entree-X x2''] \<rparr>)"
    by code_simp
  from conjunct2 [OF conjI [OF first_shortage_reported [OF h0 h1 disjI2 [OF h2]] c]]
  show ?thesis .
qed

text \<open>
  C6 as stated has the same shortage reported for the same cart and the same stock,
  has it name an inventory item whose own demand exceeds its stock, and speaks of every
  cart. A bowl needs 2 of beef and 3 of rice, with 1 of each in stock: when the store
  returns the row of the beef first, beef is reported, and when it returns the row of
  the rice first, rice. With 8 and 20 of rice in two rows of that name and a demand of
  3 and 6, no row is short of its own demand, and the first is reported with 9 needed,
  in either order of the two rows. And for three thousand million of Entree-X the
  check throws.
\<close>

theorem shortage_depends_on_row_order:
  "checkSufficientIngredients (\<lambda>rows. rows) two_short_db bowl_cart =
     Inr (Low \<lparr> low_ingredientName = ''beef'', currStock = 1, neededStock = 2,
                 menuItemsUsing = [''bowl x1''] \<rparr>) \<and>
   checkSufficientIngredients rev two_short_db bowl_cart =
     Inr (Low \<lparr> low_ingredientName = ''rice'', currStock = 1, neededStock = 3,
                 menuItemsUsing = [''bowl x1''] \<rparr>) \<and>
   map stock_level (inventory rice_db) = [8, 20] \<and>
   item_demand rice_db shared_name_cart 1 = 3 \<and>
   item_demand rice_db shared_name_cart 2 = 6 \<and>
   checkSufficientIngredients (\<lambda>rows. rows) rice_db shared_name_cart =
     Inr (Low \<lparr> low_ingredientName = ''rice'', currStock = 8, neededStock = 9,
                 menuItemsUsing = [''bowl x1'', ''plate x1''] \<rparr>) \<and>
   checkSufficientIngredients rev rice_db shared_name_cart =
     Inr (Low \<lparr> low_ingredientName = ''rice'', currStock = 8, neededStock = 9,
                 menuItemsUsing = [''plate x1'', ''bowl x1''] \<rparr>) \<and>
   map stock_level (inventory scenario_B_db) = [3] \<and>
   item_demand scenario_B_db huge_cart 1 = 6000000000 \<and>
   checkSufficientIngredients (\<lambda>rows. rows) scenario_B_db huge_cart = Inl DatabaseError"
  by code_simp

subsection \<open>C7: the empty cart\<close>

text \<open>
  C7, as amended. For the empty cart, \<open>placeOrder\<close> of the cart context fails with
  the error \<^verbatim>\<open>Your order is empty. Please add items first.\<close> before a request is sent:
  the result does not depend on the store, and the store, with its orders and order
  lines, is unchanged. The handler of \<^verbatim>\<open>POST /api/placeOrder\<close> makes no such check: for
  a body with an empty \<^verbatim>\<open>itemAmount\<close>, an employee id in the range of a 32-bit integer
  and the next id of the sequence free, it answers 201 and inserts one Order row,
  building or waiting as for any order, and no OrderLine row.
\<close>

theorem empty_cart_rejected:
  "CartContext_placeOrder p d now [] total' userId =
     (Inl (Error ''Your order is empty. Please add items first.''), d) \<and>
   (reorders p \<and> itemAmount req = [] \<and> int4 (emID req) \<and>
    orders_order_id_seq d + 1 \<notin> set (map order_id (orders d)) \<longrightarrow>
      placeOrder p d now req =
        (Status_201 (''Order placed successfully, your number is: '' @
                       toString (orders_order_id_seq d + 1)),
         d \<lparr> orders := orders d @
               [\<lparr> order_id = orders_order_id_seq d + 1,
                  employee_id = emID req,
                  order_time = now,
                  order_total = req_total req,
                  order_status = (if \<exists>ord\<in>set (orders d). order_status ord = building
                                  then waiting else building) \<rparr>],
             orders_order_id_seq := orders_order_id_seq d + 1 \<rparr>))"
proof (intro conjI impI)
  show "CartContext_placeOrder p d now [] total' userId =
     (Inl (Error ''Your order is empty. Please add items first.''), d)"
    by (simp add: CartContext_placeOrder_def)
next
  assume a: "reorders p \<and> itemAmount req = [] \<and> int4 (emID req) \<and>
    orders_order_id_seq d + 1 \<notin> set (map order_id (orders d))"
  have rows: "demand_rows d [] = []"
    by (simp add: demand_rows_def)
  then have ok: "query_ok d []"
    by (simp add: query_ok_def)
  from a have r: "reorders p" by simp
  have "checkSufficientIngredients p d [] = Inr (NotLow (breakdown [] (p (demand_rows d []))))"
    using r ok by (rule check_not_low) (simp add: rows)
  with a show "placeOrder p d now req =
        (Status_201 (''Order placed successfully, your number is: '' @
                       toString (orders_order_id_seq d + 1)),
         d \<lparr> orders := orders d @
               [\<lparr> order_id = orders_order_id_seq d + 1,
                  employee_id = emID req,
                  order_time = now,
                  order_total = req_total req,
                  order_status = (if \<exists>ord\<in>set (orders d). order_status ord = building
                                  then waiting else building) \<rparr>],
             orders_order_id_seq := orders_order_id_seq d + 1 \<rparr>)"
    by (simp add: placeOrder_eq lines_of_def)
qed

theorem empty_cart_rejected_witness:
  "CartContext_placeOrder (\<lambda>rows. rows) lane_db 1003 [] 0 7 =
     (Inl (Error ''Your order is empty. Please add items first.''), lane_db) \<and>
   map order_status (orders lane_db) = [building, waiting, waiting] \<and>
   placeOrder (\<lambda>rows. rows) lane_db 1003 \<lparr> itemAmount = [], req_total = 0, emID = 7 \<rparr> =
     (Status_201 ''Order placed successfully, your number is: 4'',
      lane_db \<lparr> orders := orders lane_db @
                  [\<lparr> order_id = 4, employee_id = 7, order_time = 1003, order_total = 0,
                     order_status = waiting \<rparr>],
                orders_order_id_seq := 4 \<rparr>)"
proof -
  have h: "reorders (\<lambda>rows :: ingredient_row list. rows) \<and>
           itemAmount \<lparr> itemAmount = [], req_total = 0, emID = 7 \<rparr> = [] \<and>
           int4 (emID \<lparr> itemAmount = [], req_total = 0, emID = 7 \<rparr>) \<and>
           orders_order_id_seq lane_db + 1 \<notin> set (map order_id (orders lane_db))"
    by (simp add: reorders_def int4_def lane_db_def scenario_A_db_def)
  have c: "CartContext_placeOrder (\<lambda>rows. rows) lane_db 1003 [] 0 7 =
     (Inl (Error ''Your order is empty. Please add items first.''), lane_db) \<and>
   map order_status (orders lane_db) = [building, waiting, waiting] \<and>
   placeOrder (\<lambda>rows. rows) lane_db 1003 \<lparr> itemAmount = [], req_total = 0, emID = 7 \<rparr> =
     (Status_201 ''Order placed successfully, your number is: 4'',
      lane_db \<lparr> orders := orders lane_db @
                  [\<lparr> order_id = 4, employee_id = 7, order_time = 1003, order_total = 0,
                     order_status = waiting \<rparr>],
                orders_order_id_seq := 4 \<rparr>)"
    by code_simp
  note inserted = mp [OF conjunct2 [OF empty_cart_rejected [of "\<lambda>rows. rows" lane_db 1003 0 7
      "\<lparr> itemAmount = [], req_total = 0, emID = 7 \<rparr>"]] h]
  from conjunct2 [OF conjI [OF inserted c]] show ?thesis .
qed

text \<open>
  C7 as stated has the call fail before any access to the store and create no row.
  Sent an empty \<^verbatim>\<open>itemAmount\<close> in scenario A, the handler answers 201 and the orders hold
  a row.
\<close>

theorem endpoint_accepts_empty_cart:
  "placeOrder (\<lambda>rows. rows) scenario_A_db 1000 \<lparr> itemAmount = [], req_total = 0, emID = 7 \<rparr> =
     (Status_201 ''Order placed successfully, your number is: 1'',
      scenario_A_db \<lparr> orders := [\<lparr> order_id = 1, employee_id = 7, order_time = 1000,
                                   order_total = 0, order_status = building \<rparr>],
                      order_menu := [],
                      orders_order_id_seq := 1 \<rparr>)"
  by code_simp

subsection \<open>C8: the order row and its lines\<close>

text \<open>
  C8, as amended. Whenever \<open>placeOrder\<close> inserts an order, the Order row has the next
  id of the sequence and its total is the \<^verbatim>\<open>total\<close> field of the request, stored as it
  was sent and not computed from the lines, and exactly one OrderLine row is inserted
  per cart line, in the order of the cart. For every sufficient cart (no row of the
  query is short of the demand totalled under its name) whose query the store answers
  (ids, quantities and products in the range of a 32-bit integer), with an employee id
  in that range and the next id of the sequence free, the order is inserted, whatever
  the order in which the store returns the rows.
\<close>

theorem order_row_and_lines:
  "(placeOrder p d now req = (Status_201 msg, d') \<longrightarrow>
      (\<exists>new. orders d' = orders d @ [new] \<and>
         order_id new = orders_order_id_seq d + 1 \<and>
         order_total new = req_total req) \<and>
      order_menu d' = order_menu d @
        map (\<lambda>selectedItem.
               \<lparr> om_order_id = orders_order_id_seq d + 1,
                 om_menu_item_id = sel_id selectedItem,
                 quantity_ordered = sel_quantity selectedItem \<rparr>) (itemAmount req)) \<and>
   (reorders p \<and> query_ok d (itemAmount req) \<and> int4 (emID req) \<and>
    (\<forall>r\<in>set (demand_rows d (itemAmount req)).
        name_total (demand_rows d (itemAmount req)) (row_item_name r) \<le> row_stock_level r) \<and>
    orders_order_id_seq d + 1 \<notin> set (map order_id (orders d)) \<longrightarrow>
      (\<exists>msg d'. placeOrder p d now req = (Status_201 msg, d')))"
proof (intro conjI impI)
  assume p: "placeOrder p d now req = (Status_201 msg, d')"
  from placeOrder_201 [OF p] show "\<exists>new. orders d' = orders d @ [new] \<and>
         order_id new = orders_order_id_seq d + 1 \<and> order_total new = req_total req"
    by simp
  from placeOrder_201 [OF p] show "order_menu d' = order_menu d @
        map (\<lambda>selectedItem.
               \<lparr> om_order_id = orders_order_id_seq d + 1,
                 om_menu_item_id = sel_id selectedItem,
                 quantity_ordered = sel_quantity selectedItem \<rparr>) (itemAmount req)"
    by (simp add: lines_of_def)
next
  assume a: "reorders p \<and> query_ok d (itemAmount req) \<and> int4 (emID req) \<and>
    (\<forall>r\<in>set (demand_rows d (itemAmount req)).
        name_total (demand_rows d (itemAmount req)) (row_item_name r) \<le> row_stock_level r) \<and>
    orders_order_id_seq d + 1 \<notin> set (map order_id (orders d))"
  then have "\<forall>r\<in>set (demand_rows d (itemAmount req)).
               \<not> is_low (demand_rows d (itemAmount req)) r"
    by (auto simp: is_low_def)
  with a have "checkSufficientIngredients p d (itemAmount req) =
      Inr (NotLow (breakdown (itemAmount req) (p (demand_rows d (itemAmount req)))))"
    by (intro check_not_low) simp_all
  with a show "\<exists>msg d'. placeOrder p d now req = (Status_201 msg, d')"
    by (intro placeOrder_sufficient) simp_all
qed

theorem order_row_and_lines_witness:
  "placeOrder (\<lambda>rows. rows) scenario_A_db 1000 scenario_request =
     (Status_201 ''Order placed successfully, your number is: 1'', placed_db) \<and>
   map order_total (orders placed_db) = [433 / 20] \<and>
   ((\<exists>new. orders placed_db = orders scenario_A_db @ [new] \<and>
       order_id new = orders_order_id_seq scenario_A_db + 1 \<and>
       order_total new = req_total scenario_request) \<and>
    order_menu placed_db = order_menu scenario_A_db @
      map (\<lambda>selectedItem.
             \<lparr> om_order_id = orders_order_id_seq scenario_A_db + 1,
               om_menu_item_id = sel_id selectedItem,
               quantity_ordered = sel_quantity selectedItem \<rparr>)
        (itemAmount scenario_request)) \<and>
   (\<exists>msg d'. placeOrder (\<lambda>rows. rows) scenario_A_db 1000 scenario_request = (Status_201 msg, d'))"
proof -
  have c: "placeOrder (\<lambda>rows. rows) scenario_A_db 1000 scenario_request =
     (Status_201 ''Order placed successfully, your number is: 1'', placed_db)"
    by code_simp
  have t: "map order_total (orders placed_db) = [433 / 20]"
    by code_simp
  have h: "reorders (\<lambda>rows :: ingredient_row list. rows) \<and>
           query_ok scenario_A_db (itemAmount scenario_request) \<and>
           int4 (emID scenario_request) \<and>
           (\<forall>r\<in>set (demand_rows scenario_A_db (itemAmount scenario_request)).
               name_total (demand_rows scenario_A_db (itemAmount scenario_request)) (row_item_name r)
                 \<le> row_stock_level r) \<and>
           orders_order_id_seq scenario_A_db + 1 \<notin> set (map order_id (orders scenario_A_db))"
  proof (intro conjI)
    show "reorders (\<lambda>rows :: ingredient_row list. rows)"
      by (simp add: reorders_def)
    show "query_ok scenario_A_db (itemAmount scenario_request)"
      by code_simp
    show "int4 (emID scenario_request)"
      by code_simp
    show "\<forall>r\<in>set (demand_rows scenario_A_db (itemAmount scenario_request)).
               name_total (demand_rows scenario_A_db (itemAmount scenario_request)) (row_item_name r)
                 \<le> row_stock_level r"
      by code_simp
    show "orders_order_id_seq scenario_A_db + 1 \<notin> set (map order_id (orders scenario_A_db))"
      by (simp add: scenario_A_db_def)
  qed
  note all = order_row_and_lines [of "\<lambda>rows. rows" scenario_A_db 1000
      scenario_request "''Order placed successfully, your number is: 1''" placed_db]
  from conjI [OF c conjI [OF t conjI [OF mp [OF conjunct1 [OF all] c] mp [OF conjunct2 [OF all] h]]]]
  show ?thesis .
qed

text \<open>
  C8 as stated takes the total to be the sum of price times quantity, and has an order
  created for every sufficient cart. For two Entree-X at 10 the sum is 20; the client
  sends 21.65, and the row holds 21.65. And a cart with a quantity of three thousand
  million, of an item without a recipe, demands nothing of the stock: the answer is
  500, and no order is created; nor is one created for the cart of scenario A when the
  employee id is three thousand million.
\<close>

theorem order_total_includes_tax:
  "sum_list (map (\<lambda>item. sel_price item * of_int (sel_quantity item)) (itemAmount scenario_request)) = 20 \<and>
   req_total scenario_request = 433 / 20 \<and>
   map order_total (orders (snd (placeOrder (\<lambda>rows. rows) scenario_A_db 1000 scenario_request))) =
     [433 / 20] \<and>
   map order_total
     (orders (snd (CartContext_placeOrder (\<lambda>rows. rows) scenario_A_db 1000 scenario_cart (433 / 20) 7))) =
     [433 / 20] \<and>
   demand_rows scenario_A_db unknown_item_cart = [] \<and>
   placeOrder (\<lambda>rows. rows) scenario_A_db 1000
       \<lparr> itemAmount = unknown_item_cart, req_total = 3247500000, emID = 7 \<rparr> =
     (Status_500, scenario_A_db) \<and>
   placeOrder (\<lambda>rows. rows) scenario_A_db 1000
       \<lparr> itemAmount = scenario_cart, req_total = 433 / 20, emID = 3000000000 \<rparr> =
     (Status_500, scenario_A_db)"
  by code_simp

subsection \<open>C9: placing an order writes no stock\<close>

text \<open>
  C9. For every cart and every outcome, the inventory after \<open>placeOrder\<close> (of the
  server and of the client) is the inventory before it; \<open>kitchenNext\<close> does not write
  it either. \<open>checkSufficientIngredients\<close> only reads: it is a function of the state and
  returns no state, and it gives the same result after \<open>placeOrder\<close> as before. The
  same holds of every single step of a call, and so of calls that overlap.
\<close>

theorem stock_never_written:
  "inventory (snd (placeOrder p d now req)) = inventory d \<and>
   inventory (snd (CartContext_placeOrder p d now selectedItems total' userId)) = inventory d \<and>
   inventory (kitchenNext d) = inventory d \<and>
   checkSufficientIngredients p' (snd (placeOrder p d now req)) cart =
     checkSufficientIngredients p' d cart \<and>
   inventory (snd (placeOrder_step p now req st d)) = inventory d \<and>
   inventory (snd (interleave p events calls d)) = inventory d \<and>
   checkSufficientIngredients p' (snd (interleave p events calls d)) cart =
     checkSufficientIngredients p' d cart"
proof -
  have "inventory (snd (CartContext_placeOrder p d now selectedItems total' userId)) = inventory d"
    using placeOrder_frame [of p d now
        "\<lparr> itemAmount = selectedItems, req_total = total', emID = userId \<rparr>"]
    by (auto simp: CartContext_placeOrder_def split: prod.splits response.splits)
  moreover have "checkSufficientIngredients p' (snd (placeOrder p d now req)) cart =
      checkSufficientIngredients p' d cart"
    by (rule check_frame) (simp_all add: placeOrder_frame)
  moreover have "checkSufficientIngredients p' (snd (interleave p events calls d)) cart =
      checkSufficientIngredients p' d cart"
    by (rule check_frame) (simp_all add: interleave_frame)
  ultimately show ?thesis
    by (simp add: placeOrder_frame placeOrder_step_frame interleave_frame kitchenNext_def)
qed

subsection \<open>C10: the demand is totalled by item name\<close>

text \<open>
  C10, as amended. The total that \<open>checkSufficientIngredients\<close> compares with a stock
  level is keyed by the item name: it is the sum of the demands on all inventory rows
  that carry the name, whatever their ids. A low result reports a row of the query
  with that total as the stock needed; and for every cart whose query the store
  answers (ids, quantities and products in the range of a 32-bit integer) the result
  is low as soon as the total exceeds the stock level of one row, whatever the order in
  which the store returns the rows. So with two rows of one name a shortage can be
  reported for a row whose own demand is within its own stock.
\<close>

theorem demand_keyed_by_name:
  "name_total (demand_rows d cart) n =
     sum_list (map (\<lambda>i. item_demand d cart (inventory_id i))
       (filter (\<lambda>i. item_name i = n) (inventory d))) \<and>
   (reorders p \<and> checkSufficientIngredients p d cart = Inr (Low lo) \<longrightarrow>
      (\<exists>r\<in>set (demand_rows d cart).
          low_ingredientName lo = row_item_name r \<and>
          currStock lo = row_stock_level r \<and>
          neededStock lo = name_total (demand_rows d cart) (row_item_name r) \<and>
          currStock lo < neededStock lo)) \<and>
   (reorders p \<and> query_ok d cart \<and>
    (\<exists>r\<in>set (demand_rows d cart).
        row_stock_level r < name_total (demand_rows d cart) (row_item_name r)) \<longrightarrow>
      (\<exists>lo. checkSufficientIngredients p d cart = Inr (Low lo)))"
proof (intro conjI impI)
  show "name_total (demand_rows d cart) n =
     sum_list (map (\<lambda>i. item_demand d cart (inventory_id i))
       (filter (\<lambda>i. item_name i = n) (inventory d)))"
    by (rule name_total_item_demand)
next
  assume a: "reorders p \<and> checkSufficientIngredients p d cart = Inr (Low lo)"
  then have "reorders p" "checkSufficientIngredients p d cart = Inr (Low lo)"
    by simp_all
  from check_Low_row [OF this] show "\<exists>r\<in>set (demand_rows d cart).
          low_ingredientName lo = row_item_name r \<and>
          currStock lo = row_stock_level r \<and>
          neededStock lo = name_total (demand_rows d cart) (row_item_name r) \<and>
          currStock lo < neededStock lo"
    by (auto simp: is_low_def)
next
  assume a: "reorders p \<and> query_ok d cart \<and>
    (\<exists>r\<in>set (demand_rows d cart).
        row_stock_level r < name_total (demand_rows d cart) (row_item_name r))"
  then have "reorders p" "query_ok d cart"
    "\<exists>r\<in>set (demand_rows d cart). is_low (demand_rows d cart) r"
    by (simp_all add: is_low_def)
  from check_low [OF this] show "\<exists>lo. checkSufficientIngredients p d cart = Inr (Low lo)"
    by blast
qed

theorem demand_keyed_by_name_witness:
  "map inventory_id (filter (\<lambda>i. item_name i = ''rice'') (inventory shared_name_db)) = [1, 2] \<and>
   item_demand shared_name_db shared_name_cart 1 = 3 \<and>
   item_demand shared_name_db shared_name_cart 2 = 3 \<and>
   map row_inventory_id (demand_rows shared_name_db shared_name_cart) = [1, 2] \<and>
   map row_stock_level (demand_rows shared_name_db shared_name_cart) = [5, 5] \<and>
   checkSufficientIngredients rev shared_name_db shared_name_cart =
     Inr (Low \<lparr> low_ingredientName = ''rice'', currStock = 5, neededStock = 6,
                 menuItemsUsing = [''plate x1'', ''bowl x1''] \<rparr>) \<and>
   name_total (demand_rows shared_name_db shared_name_cart) ''rice'' = 6"
proof -
  have h: "reorders (rev :: ingredient_row list \<Rightarrow> ingredient_row list) \<and>
           query_ok shared_name_db shared_name_cart \<and>
           (\<exists>r\<in>set (demand_rows shared_name_db shared_name_cart).
              row_stock_level r < name_total (demand_rows shared_name_db shared_name_cart) (row_item_name r))"
  proof (intro conjI)
    show "reorders (rev :: ingredient_row list \<Rightarrow> ingredient_row list)"
      by (simp add: reorders_def)
    show "query_ok shared_name_db shared_name_cart"
      by code_simp
    show "\<exists>r\<in>set (demand_rows shared_name_db shared_name_cart).
              row_stock_level r < name_total (demand_rows shared_name_db shared_name_cart) (row_item_name r)"
      by code_simp
  qed
  have c: "map inventory_id (filter (\<lambda>i. item_name i = ''rice'') (inventory shared_name_db)) = [1, 2] \<and>
     item_demand shared_name_db shared_name_cart 1 = 3 \<and>
     item_demand shared_name_db shared_name_cart 2 = 3 \<and>
     map row_inventory_id (demand_rows shared_name_db shared_name_cart) = [1, 2] \<and>
     map row_stock_level (demand_rows shared_name_db shared_name_cart) = [5, 5] \<and>
     checkSufficientIngredients rev shared_name_db shared_name_cart =
       Inr (Low \<lparr> low_ingredientName = ''rice'', currStock = 5, neededStock = 6,
                   menuItemsUsing = [''plate x1'', ''bowl x1''] \<rparr>)"
    by code_simp
  note all = demand_keyed_by_name [of shared_name_db shared_name_cart "''rice''" rev]
  from conjunct1 [OF all]
  have "name_total (demand_rows shared_name_db shared_name_cart) ''rice'' =
     sum_list (map (\<lambda>i. item_demand shared_name_db shared_name_cart (inventory_id i))
       (filter (\<lambda>i. item_name i = ''rice'') (inventory shared_name_db)))" .
  also have "\<dots> = 6"
    by (simp add: shared_name_db_def shared_name_cart_def item_demand_def)
  finally have n: "name_total (demand_rows shared_name_db shared_name_cart) ''rice'' = 6" .
  from mp [OF conjunct2 [OF conjunct2 [OF all]] h]
  have e: "\<exists>lo. checkSufficientIngredients rev shared_name_db shared_name_cart = Inr (Low lo)" .
  have h': "reorders (rev :: ingredient_row list \<Rightarrow> ingredient_row list) \<and>
            checkSufficientIngredients rev shared_name_db shared_name_cart =
              Inr (Low \<lparr> low_ingredientName = ''rice'', currStock = 5, neededStock = 6,
                          menuItemsUsing = [''plate x1'', ''bowl x1''] \<rparr>)"
    using h c by blast
  note reported = mp [OF conjunct1 [OF conjunct2 [OF demand_keyed_by_name
      [of shared_name_db shared_name_cart "''rice''" rev
          "\<lparr> low_ingredientName = ''rice'', currStock = 5, neededStock = 6,
             menuItemsUsing = [''plate x1'', ''bowl x1''] \<rparr>"]]] h']
  from conjunct2 [OF conjI [OF reported conjunct2 [OF conjI [OF e conjI [OF c n]]]]] show ?thesis
    by (simp only: conj_assoc)
qed

text \<open>
  C10 as stated speaks of every cart whose recipes use two rows of one name. With a
  thousand million bowls, at 3 of rice each, the product does not fit a 32-bit integer:
  the store refuses the query, no total is formed and none is compared.
\<close>

theorem huge_quantity_nothing_compared:
  "map item_name (inventory shared_name_db) = [''rice'', ''rice''] \<and>
   map row_inventory_id (demand_rows shared_name_db shared_name_huge_cart) = [1, 2] \<and>
   map total_quantity_needed (demand_rows shared_name_db shared_name_huge_cart) = [3000000000, 3] \<and>
   checkSufficientIngredients (\<lambda>rows. rows) shared_name_db shared_name_huge_cart = Inl DatabaseError \<and>
   placeOrder (\<lambda>rows. rows) shared_name_db 1000
       \<lparr> itemAmount = shared_name_huge_cart, req_total = 10825000012, emID = 7 \<rparr> =
     (Status_500, shared_name_db)"
  by code_simp

end
